theory Spec2Isabelle
  imports Main
begin

section \<open>Data model\<close>

text \<open>
  The orchestration layer \<^verbatim>\<open>src/main.py\<close> moves lists of post dictionaries through pandas
  data frames. A raw post is a dictionary with a stable URL under the key
  \<^verbatim>\<open>webVideoUrl\<close> and free text under \<^verbatim>\<open>text\<close>; the remaining raw attributes
  (author identifier and the four engagement counters) are named as in the data model of
  the specification. Python integers are unbounded, hence \<open>int\<close>.
  Every raw post is taken to carry all of these keys (the input boundary of the
  specification), so that a column read never meets a missing value.
\<close>

record post =
  webVideoUrl :: string
  post_text :: string
  author_id :: string
  views :: int
  likes :: int
  comments :: int
  shares :: int

datatype status = NEW | URGENT | HIGH | WATCH | SPIKING | STABLE

text \<open>
  The four market tags written by \<^verbatim>\<open>main.py\<close>: the literals ending in
  \<^verbatim>\<open>BOTH\<close>, \<^verbatim>\<open>US ONLY\<close>, \<^verbatim>\<open>UK ONLY\<close> and \<^verbatim>\<open>SINGLE\<close>.
\<close>

datatype market = BOTH | US_ONLY | UK_ONLY | SINGLE

text \<open>
  A data frame row: the raw columns plus the derived columns that \<^verbatim>\<open>main.py\<close>
  assigns one after the other. A derived column that has not been assigned yet is
  \<open>None\<close>. The type parameter \<open>'m\<close> is the bundle of computed metrics.
\<close>

record 'm row =
  raw :: post
  metrics :: "'m option"
  author :: "string option"
  AI_CATEGORY :: "string option"
  status :: "status option"
  BUILD_NOW :: "bool option"
  Market :: "market option"
  acceleration_status :: "status option"

type_synonym 'm frame = "'m row list"

definition url :: "'m row \<Rightarrow> string" where
  "url r = webVideoUrl (raw r)"

text \<open>\<^verbatim>\<open>pd.DataFrame(data)\<close>: one row per dictionary, in order, raw columns only.\<close>

definition DataFrame :: "post list \<Rightarrow> 'm frame" where
  "DataFrame data =
     map (\<lambda>p. \<lparr>raw = p, metrics = None, author = None, AI_CATEGORY = None, status = None,
               BUILD_NOW = None, Market = None, acceleration_status = None\<rparr>) data"

text \<open>
  The Python exceptions that \<^verbatim>\<open>main.py\<close> can meet. All of them are instances of
  \<^verbatim>\<open>Exception\<close>, so an \<^verbatim>\<open>except Exception\<close> clause catches each of them;
  \<^verbatim>\<open>sys.exit\<close> is kept apart as a failure of the whole run.
\<close>

datatype exc = ImportError | KeyError | ValueError | OtherException string

datatype failure = SystemExit int | Uncaught exc

section \<open>pandas operations used by the pipeline\<close>

text \<open>
  \<^verbatim>\<open>df.drop_duplicates(subset=['webVideoUrl'], keep='first')\<close>: rows are visited in
  order, a row whose URL has been seen before is dropped, the others are kept in order.
\<close>

fun drop_seen :: "string list \<Rightarrow> 'm frame \<Rightarrow> 'm frame" where
  "drop_seen seen [] = []"
| "drop_seen seen (r # rs) =
     (if url r \<in> set seen then drop_seen seen rs else r # drop_seen (url r # seen) rs)"

definition drop_duplicates :: "'m frame \<Rightarrow> 'm frame" where
  "drop_duplicates df = drop_seen [] df"

section \<open>Helpers of the daily processor\<close>

text \<open>
  \<^verbatim>\<open>main.py\<close> imports its helpers from the module \<^verbatim>\<open>daily_processor\<close>, which is
  not part of the sources at hand. The pure per-row helpers are parameters of the model:
  \<open>calc_metrics\<close> (the row-wise content of \<^verbatim>\<open>calculate_metrics\<close>),
  \<^verbatim>\<open>get_author_name\<close>, \<^verbatim>\<open>detect_ai\<close>, \<^verbatim>\<open>calculate_build_now\<close>, and
  \<open>classify\<close>, the threshold comparison of \<^verbatim>\<open>calculate_status\<close> for a record
  that has counterparts in yesterday's cache. They are taken to be total functions, as
  the specification describes them; an exception raised inside one of them is outside
  the model.
\<close>

record 'm helpers =
  calc_metrics :: "post \<Rightarrow> 'm"
  get_author_name :: "'m row \<Rightarrow> string"
  detect_ai :: "string \<Rightarrow> string"
  classify :: "'m row \<Rightarrow> 'm row list \<Rightarrow> status"
  calculate_build_now :: "'m row \<Rightarrow> bool"

text \<open>
  Modelled from the spec: \<^verbatim>\<open>calculate_metrics\<close> of the daily processor is missing from
  the sources. The specification (Record Normalizer) has it compute the engagement
  metrics deterministically from the raw counters, as a pure transformation that keeps
  every record: the metrics column is filled row by row.
\<close>

definition calculate_metrics :: "'m helpers \<Rightarrow> 'm frame \<Rightarrow> 'm frame" where
  "calculate_metrics h df = map (\<lambda>r. r\<lparr>metrics := Some (calc_metrics h (raw r))\<rparr>) df"

text \<open>
  Yesterday's cache as \<^verbatim>\<open>load_yesterday_cache\<close> returns it for one market: \<open>None\<close>
  when there is no cache, else the list of yesterday's normalised records.
\<close>

definition cache_urls :: "'m frame option \<Rightarrow> string set" where
  "cache_urls yesterday = (case yesterday of None \<Rightarrow> {} | Some ys \<Rightarrow> set (map url ys))"

text \<open>
  Modelled from the spec: \<^verbatim>\<open>calculate_status\<close> of the daily processor is missing from
  the sources. The specification (Status Classifier) has it attach exactly one status to
  every record: \<open>NEW\<close> when the record's URL is absent from yesterday's cache (or the
  cache is absent), and otherwise the outcome of comparing the metric deltas against the
  configured thresholds, which is the parameter \<open>classify\<close> applied to today's record and
  its counterparts of yesterday.
\<close>

definition calculate_status :: "'m helpers \<Rightarrow> 'm frame \<Rightarrow> 'm frame option \<Rightarrow> 'm frame" where
  "calculate_status h df yesterday =
     map (\<lambda>r. r\<lparr>status := Some
            (case yesterday of
               None \<Rightarrow> NEW
             | Some ys \<Rightarrow>
                 (case filter (\<lambda>y. url y = url r) ys of
                    [] \<Rightarrow> NEW
                  | m # ms \<Rightarrow> classify h r (m # ms)))\<rparr>) df"

section \<open>pandas and Python operations, continued\<close>

text \<open>
  \<^verbatim>\<open>df['webVideoUrl']\<close> raises \<^verbatim>\<open>KeyError\<close> on a frame without that column, which
  is the case of \<^verbatim>\<open>pd.DataFrame([])\<close>.
\<close>

definition url_column :: "'m frame \<Rightarrow> exc + string list" where
  "url_column df = (if df = [] then Inl KeyError else Inr (map url df))"

text \<open>
  \<^verbatim>\<open>set(pd.DataFrame(data)['webVideoUrl']) if data else set()\<close>, as written on lines
  56, 72, 194 and 195.
\<close>

definition url_set :: "post list \<Rightarrow> exc + string set" where
  "url_set data =
     (if data \<noteq> [] then
        (case url_column (DataFrame data :: unit frame) of
           Inl e \<Rightarrow> Inl e
         | Inr col \<Rightarrow> Inr (set col))
      else Inr {})"

text \<open>\<^verbatim>\<open>'c' in df.columns\<close> for a derived column: the frame has rows and each carries it.\<close>

definition has_column :: "('m row \<Rightarrow> 'a option) \<Rightarrow> 'm frame \<Rightarrow> bool" where
  "has_column col df = (df \<noteq> [] \<and> list_all (\<lambda>r. col r \<noteq> None) df)"

text \<open>
  The dtype that \<^verbatim>\<open>pd.DataFrame\<close> infers for a column of Python integers: \<open>int64\<close>
  when every value fits, \<open>uint64\<close> when some value is \<open>2^63\<close> or more and all lie between
  \<open>0\<close> and \<open>2^64 - 1\<close>, and \<open>object\<close> (the Python integers themselves) otherwise. In each
  case the frame holds the values exactly.
\<close>

datatype dtype = Int64 | UInt64 | Object

definition int_dtype :: "int list \<Rightarrow> dtype" where
  "int_dtype vs =
     (if list_ex (\<lambda>v. v < - (2 ^ 63) \<or> 2 ^ 64 \<le> v) vs \<or>
         (list_ex (\<lambda>v. 2 ^ 63 \<le> v) vs \<and> list_ex (\<lambda>v. v < 0) vs) then Object
      else if list_ex (\<lambda>v. 2 ^ 63 \<le> v) vs then UInt64
      else Int64)"

text \<open>
  Conversion of an integer to \<open>float64\<close>: the nearest number with a 53-bit significand,
  ties to the even significand. \<open>float64_exponent a\<close> is the number of low bits that
  do not fit. The result is again an integer, and a \<open>float64\<close> cell is represented by
  the integer it equals.
\<close>

function float64_exponent :: "nat \<Rightarrow> nat" where
  "float64_exponent a = (if a < 2 ^ 53 then 0 else Suc (float64_exponent (a div 2)))"
  by pat_completeness auto
termination
  by (relation "measure id") auto

declare float64_exponent.simps [simp del]

definition float64_of_int :: "int \<Rightarrow> int" where
  "float64_of_int v =
     (let a = nat \<bar>v\<bar>;
          e = float64_exponent a;
          q = a div 2 ^ e;
          r = a mod 2 ^ e;
          m = (if 2 ^ e < 2 * r \<or> (2 * r = 2 ^ e \<and> odd q) then q + 1 else q)
      in sgn v * int (m * 2 ^ e))"

text \<open>
  \<^verbatim>\<open>pd.concat\<close> gives each column the common dtype of that column in the frames it
  joins. Two frames that agree on the dtype keep it, and \<open>object\<close> absorbs the others; but
  the common dtype of \<open>int64\<close> and \<open>uint64\<close> is \<open>float64\<close>, and every value of the column
  is then converted. \<open>cast_raw\<close> applies this to the four counters of a raw post, given
  the raw data of the frames that are joined; the string columns are not touched.
\<close>

definition mixes_int64_uint64 :: "dtype list \<Rightarrow> bool" where
  "mixes_int64_uint64 dts = (Int64 \<in> set dts \<and> UInt64 \<in> set dts \<and> Object \<notin> set dts)"

definition column_dtypes :: "(post \<Rightarrow> int) \<Rightarrow> post list list \<Rightarrow> dtype list" where
  "column_dtypes col datas = map (\<lambda>data. int_dtype (map col data)) datas"

definition common_cast :: "dtype list \<Rightarrow> int \<Rightarrow> int" where
  "common_cast dts v = (if mixes_int64_uint64 dts then float64_of_int v else v)"

definition cast_raw :: "post list list \<Rightarrow> post \<Rightarrow> post" where
  "cast_raw datas p =
     p\<lparr>views := common_cast (column_dtypes views datas) (views p),
       likes := common_cast (column_dtypes likes datas) (likes p),
       comments := common_cast (column_dtypes comments datas) (comments p),
       shares := common_cast (column_dtypes shares datas) (shares p)\<rparr>"

text \<open>
  \<^verbatim>\<open>pd.concat(dfs, ignore_index=True)\<close>: \<^verbatim>\<open>ValueError\<close> when it is given no frame
  at all; otherwise the rows of the frames in order, each column in its common dtype.
\<close>

definition pd_concat :: "'m frame list \<Rightarrow> exc + 'm frame" where
  "pd_concat dfs =
     (if dfs = [] then Inl ValueError
      else Inr (map (\<lambda>r. r\<lparr>raw := cast_raw (map (map raw) dfs) (raw r)\<rparr>) (concat dfs)))"

text \<open>Truth value of a list-or-\<^verbatim>\<open>None\<close>: only a non-empty list is true.\<close>

definition truthy :: "'a list option \<Rightarrow> bool" where
  "truthy v = (case v of None \<Rightarrow> False | Some xs \<Rightarrow> xs \<noteq> [])"

text \<open>\<^verbatim>\<open>pd.DataFrame(y) if y else None\<close> (lines 80 to 85 and 214 to 216).\<close>

definition frame_or_none :: "'m frame option \<Rightarrow> 'm frame option" where
  "frame_or_none y = (if truthy y then y else None)"

text \<open>\<^verbatim>\<open>len\<close> of a dictionary given as its list of items: the number of its keys.\<close>

definition dict_len :: "(string \<times> string) list \<Rightarrow> nat" where
  "dict_len items = length (remdups (map fst items))"

text \<open>\<^verbatim>\<open>os.path.join(a, b)\<close> for a relative \<open>b\<close>.\<close>

definition path_join :: "string \<Rightarrow> string \<Rightarrow> string" where
  "path_join a b =
     (if a = [] then b else if last a = CHR ''/'' then a @ b else a @ ''/'' @ b)"

section \<open>Normalisation\<close>

text \<open>
  The normalisation that \<^verbatim>\<open>main.py\<close> repeats for each market, in
  \<^verbatim>\<open>run_v35_enhancements\<close> (lines 43 to 48) and before the cache write (lines 246 to
  255): an empty input gives the empty frame, any other input is deduplicated by URL and
  gets its metrics.
\<close>

definition normalized :: "'m helpers \<Rightarrow> post list \<Rightarrow> 'm frame" where
  "normalized h data =
     (let df = (if data \<noteq> [] then DataFrame data else []) in
      if length df > 0 then calculate_metrics h (drop_duplicates df) else df)"

text \<open>
  The steps shared by the three places that prepare a frame (lines 47 to 52, 65 to 69 and
  187 to 191): deduplication, metrics, author and AI category. Used to state what the
  stages compute.
\<close>

definition prepared :: "'m helpers \<Rightarrow> 'm frame \<Rightarrow> 'm frame" where
  "prepared h df = map (\<lambda>r. r\<lparr>AI_CATEGORY := Some (detect_ai h (post_text (raw r)))\<rparr>)
     (map (\<lambda>r. r\<lparr>author := Some (get_author_name h r)\<rparr>)
        (calculate_metrics h (drop_duplicates df)))"

text \<open>
  The raw records of the frame that line 178 builds from the two markets when at least
  one of them has data: empty frames are left out of the join, the US records come
  first, and the counters are in the common dtype of the join.
\<close>

definition joined :: "post list \<Rightarrow> post list \<Rightarrow> post list" where
  "joined us uk = map (cast_raw (filter (\<lambda>data. data \<noteq> []) [us, uk])) (us @ uk)"

text \<open>
  No counter column is \<open>int64\<close> in one market and \<open>uint64\<close> in the other, so that joining
  the two frames converts nothing; and the plainest case of it, every counter within the
  \<open>int64\<close> range.
\<close>

definition exact_concat :: "post list \<Rightarrow> post list \<Rightarrow> bool" where
  "exact_concat us uk =
     list_all (\<lambda>col. \<not> mixes_int64_uint64 (column_dtypes col [us, uk]))
       [views, likes, comments, shares]"

definition int64_counters :: "post list \<Rightarrow> bool" where
  "int64_counters data =
     list_all (\<lambda>p. list_all (\<lambda>v. - (2 ^ 63) \<le> v \<and> v < 2 ^ 63)
                      [views p, likes p, comments p, shares p]) data"

section \<open>The run environment\<close>

text \<open>
  What a run receives from outside: whether the module \<^verbatim>\<open>v35_enhancements\<close> can be
  imported, the values returned by \<^verbatim>\<open>fetch_all_data()\<close> and
  \<^verbatim>\<open>load_yesterday_cache(cache_dir)\<close>, the two directories, today's date as text, and
  the collaborators that \<^verbatim>\<open>main.py\<close> calls. A collaborator returns normally
  (\<open>Inr\<close>) or raises (\<open>Inl\<close>). A fetched market that is \<^verbatim>\<open>None\<close> is read as the
  empty list: \<^verbatim>\<open>main.py\<close> only ever tests its truth value. Console output and the
  creation of the two directories are not modelled.
\<close>

type_synonym stats = "string \<rightharpoonup> int"

type_synonym files = "(string \<times> string) list"

record ('m, 'u) env =
  v35_importable :: bool
  us_data :: "post list"
  uk_data :: "post list"
  us_music :: "'u list"
  uk_music :: "'u list"
  yesterday_us :: "'m frame option"
  yesterday_uk :: "'m frame option"
  output_dir :: string
  cache_dir :: string
  today :: string
  process_data :: "post list \<Rightarrow> post list \<Rightarrow> 'u list \<Rightarrow> 'u list \<Rightarrow> 'm frame option \<Rightarrow>
    'm frame option \<Rightarrow> string \<Rightarrow> string \<Rightarrow> exc + stats"
  integrate_with_daily_processor :: "'m frame \<Rightarrow> 'm frame \<Rightarrow> 'm frame option \<Rightarrow>
    'm frame option \<Rightarrow> string \<Rightarrow> exc + files"
  generate_daily_briefing :: "'m frame \<Rightarrow> 'm frame option \<Rightarrow> string \<Rightarrow> string \<Rightarrow> exc + string"
  append_summary :: "string \<Rightarrow> string \<Rightarrow> exc + unit"
  save_today_cache :: "'m frame \<Rightarrow> 'm frame \<Rightarrow> string \<Rightarrow> exc + unit"
  send_discord_notification :: "stats \<Rightarrow> exc + unit"

section \<open>The enhancement stage\<close>

text \<open>
  Lines 43 to 62 for the US market and lines 44 and 64 to 77 for the UK market are the
  same code with the two markets exchanged: \<open>data\<close> is the market's own raw data,
  \<open>other\<close> the other market's, \<open>yesterday\<close> the market's own cache and \<open>only\<close> the
  tag of a record that the other market does not have.
\<close>

definition enhanced_frame ::
  "'m helpers \<Rightarrow> post list \<Rightarrow> post list \<Rightarrow> 'm frame option \<Rightarrow> market \<Rightarrow> exc + 'm frame" where
  "enhanced_frame h data other yesterday only =
     (let df = (if data \<noteq> [] then DataFrame data else []) in
      if length df > 0 then
        (let df = drop_duplicates df;
             df = calculate_metrics h df;
             df = map (\<lambda>r. r\<lparr>author := Some (get_author_name h r)\<rparr>) df;
             df = map (\<lambda>r. r\<lparr>AI_CATEGORY := Some (detect_ai h (post_text (raw r)))\<rparr>) df;
             df = calculate_status h df yesterday;
             df = map (\<lambda>r. r\<lparr>BUILD_NOW := Some (calculate_build_now h r)\<rparr>) df
         in case url_set other of
              Inl e \<Rightarrow> Inl e
            | Inr other_urls \<Rightarrow>
                (let df = map (\<lambda>r. r\<lparr>Market :=
                            Some (if url r \<in> other_urls then BOTH else only)\<rparr>) df
                 in Inr (if has_column status df \<and> \<not> has_column acceleration_status df
                         then map (\<lambda>r. r\<lparr>acceleration_status := status r\<rparr>) df
                         else df)))
      else Inr df)"

definition us_enhanced :: "'m helpers \<Rightarrow> ('m, 'u) env \<Rightarrow> exc + 'm frame" where
  "us_enhanced h env = enhanced_frame h (us_data env) (uk_data env) (yesterday_us env) US_ONLY"

definition uk_enhanced :: "'m helpers \<Rightarrow> ('m, 'u) env \<Rightarrow> exc + 'm frame" where
  "uk_enhanced h env = enhanced_frame h (uk_data env) (us_data env) (yesterday_uk env) UK_ONLY"

text \<open>
  \<^verbatim>\<open>run_v35_enhancements\<close>: the import of line 34 with its \<^verbatim>\<open>except ImportError\<close>,
  the preparation of the two frames (outside any \<^verbatim>\<open>try\<close>), and the call of
  \<^verbatim>\<open>integrate_with_daily_processor\<close> inside \<^verbatim>\<open>try ... except Exception\<close>.
\<close>

definition run_v35_enhancements :: "'m helpers \<Rightarrow> ('m, 'u) env \<Rightarrow> exc + files" where
  "run_v35_enhancements h env =
     (if \<not> v35_importable env then Inr []
      else
        (case us_enhanced h env of
           Inl e \<Rightarrow> Inl e
         | Inr us_df \<Rightarrow>
             (case uk_enhanced h env of
                Inl e \<Rightarrow> Inl e
              | Inr uk_df \<Rightarrow>
                  (case integrate_with_daily_processor env us_df uk_df
                          (frame_or_none (yesterday_us env)) (frame_or_none (yesterday_uk env))
                          (output_dir env) of
                     Inl e \<Rightarrow> Inr []
                   | Inr enhanced_files \<Rightarrow> Inr enhanced_files))))"

section \<open>The daily briefing stage\<close>

text \<open>Lines 202 to 208.\<close>

definition combined_yesterday :: "('m, 'u) env \<Rightarrow> 'm frame option" where
  "combined_yesterday env =
     (if truthy (yesterday_us env) \<and> truthy (yesterday_uk env) then
        Some (concat (map (\<lambda>y. case y of None \<Rightarrow> [] | Some ys \<Rightarrow> ys)
                [yesterday_us env, yesterday_uk env]))
      else if truthy (yesterday_us env) then yesterday_us env
      else if truthy (yesterday_uk env) then yesterday_uk env
      else None)"

text \<open>
  Lines 178 to 211: the combined frame handed to \<^verbatim>\<open>generate_daily_briefing\<close>. An
  exception raised here is inside the \<^verbatim>\<open>try\<close> of line 176.
\<close>

definition combined_frame :: "'m helpers \<Rightarrow> ('m, 'u) env \<Rightarrow> exc + 'm frame" where
  "combined_frame h env =
     (case pd_concat (filter (\<lambda>df. length df > 0)
              [if us_data env \<noteq> [] then DataFrame (us_data env) else [],
               if uk_data env \<noteq> [] then DataFrame (uk_data env) else []]) of
        Inl e \<Rightarrow> Inl e
      | Inr df \<Rightarrow>
          if length df > 0 then
            (let df = drop_duplicates df;
                 df = calculate_metrics h df;
                 df = map (\<lambda>r. r\<lparr>author := Some (get_author_name h r)\<rparr>) df;
                 df = map (\<lambda>r. r\<lparr>AI_CATEGORY := Some (detect_ai h (post_text (raw r)))\<rparr>) df
             in case url_set (us_data env) of
                  Inl e \<Rightarrow> Inl e
                | Inr us_urls \<Rightarrow>
                    (case url_set (uk_data env) of
                       Inl e \<Rightarrow> Inl e
                     | Inr uk_urls \<Rightarrow>
                         (let both_urls = us_urls \<inter> uk_urls;
                              df = map (\<lambda>r. r\<lparr>Market :=
                                     Some (if url r \<in> both_urls then BOTH else SINGLE)\<rparr>) df;
                              df = calculate_status h df (combined_yesterday env)
                          in Inr (if has_column status df
                                  then map (\<lambda>r. r\<lparr>acceleration_status := status r\<rparr>) df
                                  else df))))
          else Inr df)"

text \<open>
  Step 3c as a whole (lines 176 to 242): the text appended to the summary report, or
  \<open>None\<close> when there was nothing to brief on or an exception was caught.
\<close>

definition daily_briefing_step :: "'m helpers \<Rightarrow> ('m, 'u) env \<Rightarrow> string option" where
  "daily_briefing_step h env =
     (case combined_frame h env of
        Inl e \<Rightarrow> None
      | Inr combined_df \<Rightarrow>
          if length combined_df > 0 then
            (case generate_daily_briefing env combined_df
                    (frame_or_none (combined_yesterday env)) (output_dir env)
                    (path_join (cache_dir env) ''velocity_streak_cache.json'') of
               Inl e \<Rightarrow> None
             | Inr briefing_text \<Rightarrow>
                 (case append_summary env
                         (output_dir env @ ''/SUMMARY_REPORT_'' @ today env @ ''.txt'')
                         ([CHR 0x0A, CHR 0x0A] @ briefing_text) of
                    Inl e \<Rightarrow> None
                  | Inr u \<Rightarrow> Some briefing_text))
          else None)"

section \<open>The run\<close>

text \<open>
  What a completed run has produced: the enhanced files, the briefing text appended to
  the summary report (if any), the two frames given to \<^verbatim>\<open>save_today_cache\<close> and the
  statistics given to \<^verbatim>\<open>send_discord_notification\<close>.
\<close>

record 'm run_result =
  enhanced :: files
  briefing :: "string option"
  cache_saved :: "'m frame \<times> 'm frame"
  notified :: stats

text \<open>Lines 246 to 255: the two frames of the cache write.\<close>

definition cache_frames :: "'m helpers \<Rightarrow> ('m, 'u) env \<Rightarrow> 'm frame \<times> 'm frame" where
  "cache_frames h env =
     (let us_df = (if us_data env \<noteq> [] then DataFrame (us_data env) else []);
          uk_df = (if uk_data env \<noteq> [] then DataFrame (uk_data env) else []);
          us_df = (if length us_df > 0 then calculate_metrics h (drop_duplicates us_df)
                   else us_df);
          uk_df = (if length uk_df > 0 then calculate_metrics h (drop_duplicates uk_df)
                   else uk_df)
      in (us_df, uk_df))"

text \<open>
  \<^verbatim>\<open>main()\<close>, from the fetched data on. The calls of \<^verbatim>\<open>process_data\<close>,
  \<^verbatim>\<open>run_v35_enhancements\<close>, \<^verbatim>\<open>save_today_cache\<close> and
  \<^verbatim>\<open>send_discord_notification\<close> stand outside any \<^verbatim>\<open>try\<close>: what they raise ends
  the run.
\<close>

definition main :: "'m helpers \<Rightarrow> ('m, 'u) env \<Rightarrow> failure + 'm run_result" where
  "main h env =
     (if us_data env = [] \<and> uk_data env = [] then Inl (SystemExit 1)
      else
        (case process_data env (us_data env) (uk_data env) (us_music env) (uk_music env)
                (yesterday_us env) (yesterday_uk env) (output_dir env) (cache_dir env) of
           Inl e \<Rightarrow> Inl (Uncaught e)
         | Inr stats0 \<Rightarrow>
             (case run_v35_enhancements h env of
                Inl e \<Rightarrow> Inl (Uncaught e)
              | Inr enhanced_files \<Rightarrow>
                  (let stats1 = (if enhanced_files \<noteq> []
                                 then stats0(''enhanced_files'' \<mapsto> int (dict_len enhanced_files))
                                 else stats0);
                       briefing_text = daily_briefing_step h env;
                       (us_df, uk_df) = cache_frames h env
                   in case save_today_cache env us_df uk_df (cache_dir env) of
                        Inl e \<Rightarrow> Inl (Uncaught e)
                      | Inr u \<Rightarrow>
                          (case send_discord_notification env stats1 of
                             Inl e \<Rightarrow> Inl (Uncaught e)
                           | Inr v \<Rightarrow>
                               Inr \<lparr>enhanced = enhanced_files, briefing = briefing_text,
                                    cache_saved = (us_df, uk_df), notified = stats1\<rparr>)))))"

text \<open>
  Running the script: the module-level imports of lines 19 to 23 come first, and line 22
  imports \<^verbatim>\<open>integrate_with_daily_processor\<close> and \<^verbatim>\<open>generate_daily_briefing\<close> from
  \<^verbatim>\<open>v35_enhancements\<close> outside any \<^verbatim>\<open>try\<close>; then \<^verbatim>\<open>main()\<close> is called (line 281).
  The other imported modules are taken to be present.
\<close>

definition script :: "'m helpers \<Rightarrow> ('m, 'u) env \<Rightarrow> failure + 'm run_result" where
  "script h env = (if v35_importable env then main h env else Inl (Uncaught ImportError))"

section \<open>The streak cache\<close>

text \<open>
  Modelled from the spec: the streak engine behind \<^verbatim>\<open>generate_daily_briefing\<close> lives
  in the module \<^verbatim>\<open>v35_enhancements\<close>, which is missing from the sources;
  \<^verbatim>\<open>main.py\<close> only hands it the combined frame and the path of the streak cache
  (lines 218 to 224). A streak entry holds the consecutive-day acceleration count, the
  last-seen date (a day number) and the last velocity value.
\<close>

record 'v streak_entry =
  day_count :: nat
  last_seen :: int
  last_velocity :: 'v

type_synonym 'v streak_cache = "string \<rightharpoonup> 'v streak_entry"

text \<open>
  Modelled from the spec: the configuration of the missing streak engine, namely the
  retention window in days, which statuses indicate acceleration, and the velocity signal
  of a record.
\<close>

record ('m, 'v) streak_policy =
  retention :: int
  accelerating :: "status \<Rightarrow> bool"
  velocity :: "'m row \<Rightarrow> 'v"

text \<open>
  Modelled from the spec: a record accelerates when the status that \<^verbatim>\<open>main.py\<close>
  copies into the column \<^verbatim>\<open>acceleration_status\<close> indicates acceleration (step 2 of
  the missing Velocity and Streak Engine).
\<close>

definition row_accelerates :: "('m, 'v) streak_policy \<Rightarrow> 'm row \<Rightarrow> bool" where
  "row_accelerates pol r =
     (case acceleration_status r of None \<Rightarrow> False | Some s \<Rightarrow> accelerating pol s)"

text \<open>
  Modelled from the spec: step 4 of the missing streak engine. At the start of a run
  every entry whose last-seen date is older than the retention window is purged.
\<close>

definition purge :: "('m, 'v) streak_policy \<Rightarrow> int \<Rightarrow> 'v streak_cache \<Rightarrow> 'v streak_cache" where
  "purge pol day c =
     (\<lambda>u. case c u of
            None \<Rightarrow> None
          | Some e \<Rightarrow> if day - last_seen e > retention pol then None else Some e)"

text \<open>
  Modelled from the spec: steps 2 and 3 of the missing streak engine, for one record. An
  accelerating record increments its entry's day count (an absent entry is created with
  count 1) and updates last-seen date and last velocity; a record that does not
  accelerate has the day count of its entry reset to zero, the entry itself staying in
  the cache.
\<close>

definition update_streak ::
  "('m, 'v) streak_policy \<Rightarrow> int \<Rightarrow> 'm row \<Rightarrow> 'v streak_cache \<Rightarrow> 'v streak_cache" where
  "update_streak pol day r c =
     (if row_accelerates pol r then
        c(url r \<mapsto> \<lparr>day_count = (case c (url r) of None \<Rightarrow> 1 | Some e \<Rightarrow> day_count e + 1),
                     last_seen = day, last_velocity = velocity pol r\<rparr>)
      else
        (case c (url r) of
           None \<Rightarrow> c
         | Some e \<Rightarrow> c(url r \<mapsto> e\<lparr>day_count := 0\<rparr>)))"

text \<open>
  Modelled from the spec: one run of the missing streak engine over the frame it is
  given. Entries older than the retention window are purged first, then the records are
  processed in order; the entry of a URL that does not appear in the frame has its day
  count reset to zero as well (a day passed without the post appearing), and stays in
  the cache until the purge removes it.
\<close>

definition streak_run ::
  "('m, 'v) streak_policy \<Rightarrow> int \<Rightarrow> 'm frame \<Rightarrow> 'v streak_cache \<Rightarrow> 'v streak_cache" where
  "streak_run pol day df c =
     (let seen = fold (update_streak pol day) df (purge pol day c)
      in (\<lambda>u. if u \<in> url ` set df then seen u
               else map_option (\<lambda>e. e\<lparr>day_count := 0\<rparr>) (seen u)))"

text \<open>
  Modelled from the spec: consecutive runs of the missing streak engine, each with its
  date and its frame, the cache written by one run being read by the next.
\<close>

fun streak_runs ::
  "('m, 'v) streak_policy \<Rightarrow> (int \<times> 'm frame) list \<Rightarrow> 'v streak_cache \<Rightarrow> 'v streak_cache" where
  "streak_runs pol [] c = c"
| "streak_runs pol ((day, df) # runs) c = streak_runs pol runs (streak_run pol day df c)"

text \<open>
  Modelled from the spec: the streak day-count of a URL in the cache of the missing
  streak engine; a URL without an entry has no streak.
\<close>

definition streak_days :: "'v streak_cache \<Rightarrow> string \<Rightarrow> nat" where
  "streak_days c u = (case c u of None \<Rightarrow> 0 | Some e \<Rightarrow> day_count e)"

text \<open>
  Consecutive run dates that are never further apart than the retention window, and a
  frame with one row per URL in which the URL \<open>u\<close> accelerates.
\<close>

fun within_retention :: "int \<Rightarrow> int \<Rightarrow> int list \<Rightarrow> bool" where
  "within_retention ret prev [] = True"
| "within_retention ret prev (d # ds) = (d - prev \<le> ret \<and> within_retention ret d ds)"

definition accelerates_in :: "('m, 'v) streak_policy \<Rightarrow> string \<Rightarrow> 'm frame \<Rightarrow> bool" where
  "accelerates_in pol u df =
     (distinct (map url df) \<and> list_ex (\<lambda>r. url r = u \<and> row_accelerates pol r) df)"

section \<open>A concrete run\<close>

text \<open>
  Concrete helpers, posts and a concrete environment, on which the theorems below are
  exercised. The US data holds the URL \<open>A\<close> twice with different counters; the UK data
  holds \<open>A\<close> as well, with counters of its own.
\<close>

definition demo_helpers :: "int helpers" where
  "demo_helpers =
     \<lparr>calc_metrics = (\<lambda>p. likes p + comments p + shares p),
      get_author_name = (\<lambda>r. author_id (raw r)),
      detect_ai = (\<lambda>t. if t = [] then ''NONE'' else ''HUMAN''),
      classify = (\<lambda>r ys. if 2 * views (raw (last ys)) \<le> views (raw r) then URGENT else STABLE),
      calculate_build_now = (\<lambda>r. status r = Some URGENT)\<rparr>"

definition post_a :: post where
  "post_a = \<lparr>webVideoUrl = ''A'', post_text = ''dance'', author_id = ''me'',
             views = 5000, likes = 40, comments = 2, shares = 1\<rparr>"

definition post_a_late :: post where
  "post_a_late = \<lparr>webVideoUrl = ''A'', post_text = ''dance'', author_id = ''me'',
             views = 7000, likes = 90, comments = 5, shares = 3\<rparr>"

definition post_a_uk :: post where
  "post_a_uk = \<lparr>webVideoUrl = ''A'', post_text = ''dance'', author_id = ''me'',
             views = 300, likes = 7, comments = 0, shares = 0\<rparr>"

definition post_b :: post where
  "post_b = \<lparr>webVideoUrl = ''B'', post_text = [], author_id = ''you'',
             views = 10, likes = 0, comments = 0, shares = 0\<rparr>"

definition post_c :: post where
  "post_c = \<lparr>webVideoUrl = ''C'', post_text = ''cats'', author_id = ''them'',
             views = 80, likes = 3, comments = 1, shares = 0\<rparr>"

definition cached_a :: "int row" where
  "cached_a = \<lparr>raw = post_a\<lparr>views := 1000\<rparr>, metrics = Some 9, author = None,
                AI_CATEGORY = None, status = None, BUILD_NOW = None, Market = None,
                acceleration_status = None\<rparr>"

definition demo_env :: "(int, unit) env" where
  "demo_env =
     \<lparr>v35_importable = True,
      us_data = [post_a, post_a_late, post_b],
      uk_data = [post_a_uk, post_c],
      us_music = [],
      uk_music = [],
      yesterday_us = Some [cached_a],
      yesterday_uk = None,
      output_dir = ''output'',
      cache_dir = ''data'',
      today = ''2026-01-01'',
      process_data = (\<lambda>us uk usm ukm yus yuk out cache.
         Inr [''your_posts'' \<mapsto> 1, ''competitor'' \<mapsto> 2, ''urgent'' \<mapsto> 1]),
      integrate_with_daily_processor = (\<lambda>us uk yus yuk out.
         Inr [(''velocity'', ''output/ENHANCED_VELOCITY.xlsx''),
              (''competitors'', ''output/ENHANCED_COMPETITORS.xlsx'')]),
      generate_daily_briefing = (\<lambda>df ydf out cache. Inr ''briefing''),
      append_summary = (\<lambda>path txt. Inr ()),
      save_today_cache = (\<lambda>us uk cache. Inr ()),
      send_discord_notification = (\<lambda>st. Inr ())\<rparr>"

text \<open>
  A degraded run: no UK data, no cache, and both the enhanced analytics and the briefing
  generator raise.
\<close>

definition degraded_env :: "(int, unit) env" where
  "degraded_env =
     demo_env\<lparr>uk_data := [], yesterday_us := None,
       integrate_with_daily_processor :=
         (\<lambda>us uk yus yuk out. Inl (OtherException ''velocity engine'')),
       generate_daily_briefing :=
         (\<lambda>df ydf out cache. Inl (OtherException ''briefing''))\<rparr>"

text \<open>A concrete policy and two rows for the URL \<open>A\<close>, one accelerating, one not.\<close>

definition demo_policy :: "(int, int) streak_policy" where
  "demo_policy =
     \<lparr>retention = 7, accelerating = (\<lambda>s. s = URGENT \<or> s = SPIKING),
      velocity = (\<lambda>r. views (raw r))\<rparr>"

definition hot_a :: "int row" where
  "hot_a = \<lparr>raw = post_a, metrics = Some 43, author = Some ''me'',
             AI_CATEGORY = Some ''HUMAN'', status = Some URGENT, BUILD_NOW = None,
             Market = Some BOTH, acceleration_status = Some URGENT\<rparr>"

definition cool_a :: "int row" where
  "cool_a = hot_a\<lparr>status := Some STABLE, acceleration_status := Some STABLE\<rparr>"

text \<open>
  A run in which the notifier raises, and a run in which the URL \<open>A\<close> has a US view
  count just above \<open>2^53\<close> and a UK view count of \<open>2^63\<close>.
\<close>

definition notifier_down_env :: "(int, unit) env" where
  "notifier_down_env =
     demo_env\<lparr>send_discord_notification := (\<lambda>st. Inl (OtherException ''webhook''))\<rparr>"

definition post_big_us :: post where
  "post_big_us = \<lparr>webVideoUrl = ''A'', post_text = ''dance'', author_id = ''me'',
             views = 9007199254740993, likes = 40, comments = 2, shares = 1\<rparr>"

definition post_big_uk :: post where
  "post_big_uk = \<lparr>webVideoUrl = ''A'', post_text = ''dance'', author_id = ''me'',
             views = 9223372036854775808, likes = 7, comments = 0, shares = 0\<rparr>"

definition big_env :: "(int, unit) env" where
  "big_env = demo_env\<lparr>us_data := [post_big_us], uk_data := [post_big_uk]\<rparr>"

section \<open>Deduplication\<close>

lemma filter_drop_seen:
  "filter (\<lambda>r. url r = u) (drop_seen seen df) =
     (if u \<in> set seen then []
      else (case find (\<lambda>r. url r = u) df of None \<Rightarrow> [] | Some r \<Rightarrow> [r]))"
proof (induction df arbitrary: seen)
  case Nil
  show ?case by simp
next
  case (Cons r rs)
  show ?case
  proof (cases "url r \<in> set seen")
    case True
    then show ?thesis using Cons.IH [of seen] by auto
  next
    case False
    then show ?thesis using Cons.IH [of "url r # seen"] by auto
  qed
qed

lemma filter_drop_duplicates:
  "filter (\<lambda>r. url r = u) (drop_duplicates df) =
     (case find (\<lambda>r. url r = u) df of None \<Rightarrow> [] | Some r \<Rightarrow> [r])"
  by (simp add: drop_duplicates_def filter_drop_seen)

lemma set_drop_seen: "url ` set (drop_seen seen df) = url ` set df - set seen"
  by (induction df arbitrary: seen) auto

lemma distinct_drop_seen: "distinct (map url (drop_seen seen df))"
proof (induction df arbitrary: seen)
  case Nil
  show ?case by simp
next
  case (Cons r rs)
  have "url r \<notin> url ` set (drop_seen (url r # seen) rs)"
    by (simp add: set_drop_seen)
  then show ?case using Cons.IH by auto
qed

lemma distinct_drop_duplicates: "distinct (map url (drop_duplicates df))"
  by (simp add: drop_duplicates_def distinct_drop_seen)

lemma urls_drop_duplicates: "url ` set (drop_duplicates df) = url ` set df"
  by (simp add: drop_duplicates_def set_drop_seen)

lemma url_metrics_update [simp]: "url (r\<lparr>metrics := m\<rparr>) = url r"
  by (simp add: url_def)

lemma map_url_calculate_metrics [simp]: "map url (calculate_metrics h df) = map url df"
  by (simp add: calculate_metrics_def)

lemma find_DataFrame:
  "find (\<lambda>r. url r = u) (DataFrame data :: 'm frame) =
     map_option (\<lambda>p. \<lparr>raw = p, metrics = None, author = None, AI_CATEGORY = None,
                      status = None, BUILD_NOW = None, Market = None,
                      acceleration_status = None\<rparr>)
       (find (\<lambda>p. webVideoUrl p = u) data)"
  by (induction data) (auto simp: DataFrame_def url_def)

lemma map_url_DataFrame [simp]: "map url (DataFrame data) = map webVideoUrl data"
  by (simp add: DataFrame_def url_def)

lemma filter_calculate_metrics:
  "filter (\<lambda>r. url r = u) (calculate_metrics h df) =
     calculate_metrics h (filter (\<lambda>r. url r = u) df)"
  by (induction df) (auto simp: calculate_metrics_def)

lemma normalized_nonempty:
  "data \<noteq> [] \<Longrightarrow> normalized h data = calculate_metrics h (drop_duplicates (DataFrame data))"
  by (simp add: normalized_def DataFrame_def)

lemma normalized_empty [simp]: "normalized h [] = []"
  by (simp add: normalized_def)

lemma distinct_normalized: "distinct (map url (normalized h data))"
  by (cases "data = []") (simp_all add: normalized_nonempty distinct_drop_duplicates)

lemma urls_normalized: "set (map url (normalized h data)) = webVideoUrl ` set data"
proof (cases "data = []")
  case True
  then show ?thesis by simp
next
  case False
  have "set (map url (normalized h data)) = url ` set (drop_duplicates (DataFrame data :: 'a frame))"
    using False by (simp add: normalized_nonempty)
  also have "\<dots> = set (map url (DataFrame data :: 'a frame))"
    by (simp only: urls_drop_duplicates set_map)
  finally show ?thesis by simp
qed

lemma filter_normalized:
  "filter (\<lambda>r. url r = u) (normalized h data) =
     (case find (\<lambda>p. webVideoUrl p = u) data of
        None \<Rightarrow> []
      | Some p \<Rightarrow> [\<lparr>raw = p, metrics = Some (calc_metrics h p), author = None,
                    AI_CATEGORY = None, status = None, BUILD_NOW = None, Market = None,
                    acceleration_status = None\<rparr>])"
proof (cases "data = []")
  case True
  then show ?thesis by simp
next
  case False
  have "filter (\<lambda>r. url r = u) (normalized h data) =
          calculate_metrics h (filter (\<lambda>r. url r = u) (drop_duplicates (DataFrame data)))"
    using False by (simp add: normalized_nonempty filter_calculate_metrics)
  also have "\<dots> = calculate_metrics h
      (case find (\<lambda>r. url r = u) (DataFrame data) of None \<Rightarrow> [] | Some r \<Rightarrow> [r])"
    by (simp only: filter_drop_duplicates)
  finally show ?thesis
    by (simp add: find_DataFrame calculate_metrics_def split: option.splits)
qed

section \<open>The prepared frames\<close>


lemma url_set_eq: "url_set data = Inr (webVideoUrl ` set data)"
  by (cases data) (simp_all add: url_set_def url_column_def DataFrame_def url_def image_image)

lemma drop_seen_subset: "set (drop_seen seen df) \<subseteq> set df"
  by (induction df arbitrary: seen) auto

lemma drop_duplicates_subset: "set (drop_duplicates df) \<subseteq> set df"
  by (simp add: drop_duplicates_def drop_seen_subset)

lemma drop_duplicates_nonempty: "df \<noteq> [] \<Longrightarrow> drop_duplicates df \<noteq> []"
  by (cases df) (simp_all add: drop_duplicates_def)

lemma url_updates [simp]:
  "url (r\<lparr>author := a\<rparr>) = url r"
  "url (r\<lparr>AI_CATEGORY := b\<rparr>) = url r"
  "url (r\<lparr>status := c\<rparr>) = url r"
  "url (r\<lparr>BUILD_NOW := d\<rparr>) = url r"
  "url (r\<lparr>Market := e\<rparr>) = url r"
  "url (r\<lparr>acceleration_status := f\<rparr>) = url r"
  by (simp_all add: url_def)

lemma map_url_calculate_status [simp]: "map url (calculate_status h df y) = map url df"
  by (simp add: calculate_status_def)

lemma acceleration_status_DataFrame:
  "r \<in> set (DataFrame data) \<Longrightarrow> acceleration_status r = None"
  by (auto simp: DataFrame_def)

lemma enhanced_frame_empty [simp]: "enhanced_frame h [] other y only = Inr []"
  by (simp add: enhanced_frame_def)

lemma enhanced_frame_nonempty:
  assumes "data \<noteq> []"
  shows "enhanced_frame h data other y only =
     Inr (map (\<lambda>r. r\<lparr>acceleration_status := status r\<rparr>)
       (map (\<lambda>r. r\<lparr>Market := Some (if url r \<in> webVideoUrl ` set other then BOTH else only)\<rparr>)
         (map (\<lambda>r. r\<lparr>BUILD_NOW := Some (calculate_build_now h r)\<rparr>)
           (calculate_status h (prepared h (DataFrame data)) y))))"
proof -
  let ?df = "map (\<lambda>r. r\<lparr>Market := Some (if url r \<in> webVideoUrl ` set other then BOTH else only)\<rparr>)
         (map (\<lambda>r. r\<lparr>BUILD_NOW := Some (calculate_build_now h r)\<rparr>)
           (calculate_status h (prepared h (DataFrame data)) y))"
  have ne: "drop_duplicates (DataFrame data :: 'a frame) \<noteq> []"
    using assms by (simp add: drop_duplicates_nonempty DataFrame_def)
  then have ne': "?df \<noteq> []"
    by (simp add: calculate_status_def prepared_def calculate_metrics_def)
  have st: "list_all (\<lambda>r. status r \<noteq> None) ?df"
    by (simp add: list_all_iff calculate_status_def)
  have "\<forall>r \<in> set (drop_duplicates (DataFrame data :: 'a frame)). acceleration_status r = None"
    using drop_duplicates_subset acceleration_status_DataFrame by blast
  then have acc: "\<forall>r \<in> set ?df. acceleration_status r = None"
    by (auto simp: calculate_status_def prepared_def calculate_metrics_def)
  have "\<not> list_all (\<lambda>r. acceleration_status r \<noteq> None) ?df"
    using ne' acc by (cases ?df) auto
  then have "has_column status ?df \<and> \<not> has_column acceleration_status ?df"
    using ne' st by (simp add: has_column_def)
  then show ?thesis
    using assms by (simp add: enhanced_frame_def Let_def url_set_eq prepared_def DataFrame_def)
qed


lemma map_url_prepared [simp]: "map url (prepared h df) = map url (drop_duplicates df)"
  by (simp add: prepared_def calculate_metrics_def)

lemma enhanced_frame_total: "\<exists>df. enhanced_frame h data other y only = Inr df"
  by (cases "data = []") (simp_all add: enhanced_frame_nonempty)

lemma enhanced_frame_urls:
  assumes "enhanced_frame h data other y only = Inr df"
  shows "map url df = map url (normalized h data)"
proof (cases "data = []")
  case True
  then show ?thesis using assms by simp
next
  case False
  then show ?thesis
    using assms by (auto simp: enhanced_frame_nonempty normalized_nonempty o_def)
qed

lemma enhanced_frame_Market:
  assumes "enhanced_frame h data other y only = Inr df" and "r \<in> set df"
  shows "Market r = Some (if url r \<in> webVideoUrl ` set other then BOTH else only)"
proof (cases "data = []")
  case True
  then show ?thesis using assms by simp
next
  case False
  then show ?thesis
    using assms by (auto simp: enhanced_frame_nonempty)
qed

lemma calculate_status_absent:
  assumes "r \<in> set (calculate_status h df y)" and "url r \<notin> cache_urls y"
  shows "status r = Some NEW"
proof -
  from assms(1) obtain r0 where r0: "r0 \<in> set df" and r: "r = r0\<lparr>status := Some
            (case y of
               None \<Rightarrow> NEW
             | Some ys \<Rightarrow>
                 (case filter (\<lambda>y. url y = url r0) ys of
                    [] \<Rightarrow> NEW
                  | m # ms \<Rightarrow> classify h r0 (m # ms)))\<rparr>"
    by (auto simp: calculate_status_def)
  show ?thesis
  proof (cases y)
    case None
    then show ?thesis using r by simp
  next
    case (Some ys)
    have "url r = url r0" using r by simp
    with assms(2) Some have "url r0 \<notin> url ` set ys" by (simp add: cache_urls_def)
    then have "filter (\<lambda>y. url y = url r0) ys = []"
      by (auto simp: filter_empty_conv image_iff)
    then show ?thesis using r Some by simp
  qed
qed

lemma enhanced_frame_status_absent:
  assumes "enhanced_frame h data other y only = Inr df" and "r \<in> set df"
    and "url r \<notin> cache_urls y"
  shows "status r = Some NEW \<and> acceleration_status r = Some NEW"
proof (cases "data = []")
  case True
  then show ?thesis using assms by simp
next
  case False
  let ?cs = "calculate_status h (prepared h (DataFrame data)) y"
  from assms(1,2) False obtain r0 where r0: "r0 \<in> set ?cs"
    and st: "status r = status r0" and ac: "acceleration_status r = status r0"
    and u: "url r = url r0"
    by (auto simp: enhanced_frame_nonempty)
  from calculate_status_absent [OF r0] assms(3) u have "status r0 = Some NEW" by simp
  then show ?thesis using st ac by simp
qed

section \<open>The combined frame\<close>

lemma find_append_first:
  "find P (xs @ ys) = (case find P xs of None \<Rightarrow> find P ys | Some x \<Rightarrow> Some x)"
  by (induction xs) auto

lemma DataFrame_append: "DataFrame xs @ DataFrame ys = DataFrame (xs @ ys)"
  by (simp add: DataFrame_def)

lemma DataFrame_Nil_iff [simp]: "DataFrame data = [] \<longleftrightarrow> data = []"
  by (simp add: DataFrame_def)

lemma map_raw_DataFrame [simp]: "map raw (DataFrame data) = data"
  by (simp add: DataFrame_def o_def)

lemma cast_raw_strings [simp]:
  "webVideoUrl (cast_raw datas p) = webVideoUrl p"
  "post_text (cast_raw datas p) = post_text p"
  "author_id (cast_raw datas p) = author_id p"
  by (simp_all add: cast_raw_def)

lemma cast_rows_DataFrame:
  "map (\<lambda>r. r\<lparr>raw := f (raw r)\<rparr>) (DataFrame data) = DataFrame (map f data)"
  by (simp add: DataFrame_def)

lemma float64_exponent_small: "a < 2 ^ 53 \<Longrightarrow> float64_exponent a = 0"
  by (subst float64_exponent.simps) simp

lemma float64_small: "\<bar>v\<bar> < 2 ^ 53 \<Longrightarrow> float64_of_int v = v"
proof -
  assume "\<bar>v\<bar> < 2 ^ 53"
  then have "nat \<bar>v\<bar> < 2 ^ 53" by (simp add: nat_less_iff)
  then have "float64_exponent (nat \<bar>v\<bar>) = 0" by (rule float64_exponent_small)
  then show ?thesis by (simp add: float64_of_int_def Let_def mult_sgn_abs)
qed

lemma cast_raw_exact: "exact_concat us uk \<Longrightarrow> cast_raw [us, uk] p = p"
  by (simp add: exact_concat_def cast_raw_def common_cast_def)

lemma int_dtype_int64:
  assumes "list_all (\<lambda>v. - (2 ^ 63) \<le> v \<and> v < 2 ^ 63) vs"
  shows "int_dtype vs = Int64"
proof -
  have small: "- (2 ^ 63) \<le> v \<and> v < 2 ^ 63" if "v \<in> set vs" for v :: int
    using assms that by (simp add: list_all_iff)
  have "\<not> list_ex (\<lambda>v. 2 ^ 63 \<le> v) vs"
    using small by (fastforce simp: list_ex_iff)
  moreover have "\<not> list_ex (\<lambda>v. v < - (2 ^ 63) \<or> 2 ^ 64 \<le> v) vs"
    using small by (fastforce simp: list_ex_iff)
  ultimately show ?thesis by (simp add: int_dtype_def)
qed

lemma int64_counters_exact:
  assumes "int64_counters us" and "int64_counters uk"
  shows "exact_concat us uk"
proof -
  have dt: "int_dtype (map col data) = Int64"
    if "int64_counters data" and "col \<in> {views, likes, comments, shares}" for col data
    using that by (intro int_dtype_int64) (auto simp: int64_counters_def list_all_iff)
  show ?thesis
    using dt [OF assms(1)] dt [OF assms(2)]
    by (simp add: exact_concat_def column_dtypes_def mixes_int64_uint64_def)
qed

lemma joined_Nil_iff [simp]: "joined us uk = [] \<longleftrightarrow> us = [] \<and> uk = []"
  by (simp add: joined_def)

lemma map_url_joined [simp]: "map webVideoUrl (joined us uk) = map webVideoUrl (us @ uk)"
  by (simp add: joined_def)

lemma find_map_same_url:
  assumes "\<And>p. webVideoUrl (f p) = webVideoUrl p"
  shows "find (\<lambda>p. webVideoUrl p = u) (map f data) =
           map_option f (find (\<lambda>p. webVideoUrl p = u) data)"
  by (induction data) (simp_all add: assms)

lemma find_joined:
  "find (\<lambda>p. webVideoUrl p = u) (joined us uk) =
     map_option (cast_raw (filter (\<lambda>data. data \<noteq> []) [us, uk]))
       (find (\<lambda>p. webVideoUrl p = u) (us @ uk))"
  unfolding joined_def by (rule find_map_same_url) simp

lemma combined_frame_empty:
  "us_data env = [] \<Longrightarrow> uk_data env = [] \<Longrightarrow> combined_frame h env = Inl ValueError"
  by (simp add: combined_frame_def pd_concat_def)

lemma concat_nonempty_frames:
  "pd_concat (filter (\<lambda>df. length df > 0)
              [if us \<noteq> [] then DataFrame us else [], if uk \<noteq> [] then DataFrame uk else []]) =
     (if us = [] \<and> uk = [] then Inl ValueError else Inr (DataFrame (joined us uk)))"
proof (cases "us = []")
  case True
  show ?thesis
  proof (cases "uk = []")
    case True
    with \<open>us = []\<close> show ?thesis by (simp add: pd_concat_def)
  next
    case False
    with \<open>us = []\<close> show ?thesis
      by (simp add: pd_concat_def joined_def cast_rows_DataFrame DataFrame_def [of uk, symmetric])
  qed
next
  case False
  show ?thesis
  proof (cases "uk = []")
    case True
    with \<open>us \<noteq> []\<close> show ?thesis
      by (simp add: pd_concat_def joined_def cast_rows_DataFrame)
  next
    case False
    with \<open>us \<noteq> []\<close> show ?thesis
      by (simp add: pd_concat_def joined_def cast_rows_DataFrame DataFrame_append
          del: map_append)
  qed
qed

lemma drop_duplicates_Nil_iff [simp]: "drop_duplicates df = [] \<longleftrightarrow> df = []"
  by (cases df) (simp_all add: drop_duplicates_def)

lemma calculate_metrics_Nil_iff [simp]: "calculate_metrics h df = [] \<longleftrightarrow> df = []"
  by (simp add: calculate_metrics_def)

lemma calculate_status_Nil_iff [simp]: "calculate_status h df y = [] \<longleftrightarrow> df = []"
  by (simp add: calculate_status_def)

lemma has_column_status: "df \<noteq> [] \<Longrightarrow> has_column status (calculate_status h df y)"
  by (simp add: has_column_def list_all_iff) (simp add: calculate_status_def)

lemma combined_frame_nonempty:
  assumes "us_data env \<noteq> [] \<or> uk_data env \<noteq> []"
  shows "combined_frame h env =
     Inr (map (\<lambda>r. r\<lparr>acceleration_status := status r\<rparr>)
       (calculate_status h
         (map (\<lambda>r. r\<lparr>Market := Some (if url r \<in> webVideoUrl ` set (us_data env) \<inter>
                                            webVideoUrl ` set (uk_data env)
                                      then BOTH else SINGLE)\<rparr>)
            (prepared h (DataFrame (joined (us_data env) (uk_data env)))))
         (combined_yesterday env)))"
  unfolding combined_frame_def concat_nonempty_frames
  using assms
  by (auto simp: Let_def url_set_eq prepared_def has_column_status)

lemma combined_frame_urls:
  assumes "combined_frame h env = Inr df"
  shows "map url df = map url (prepared h (DataFrame (joined (us_data env) (uk_data env))))"
proof (cases "us_data env = [] \<and> uk_data env = []")
  case True
  then show ?thesis using assms by (simp add: combined_frame_empty)
next
  case False
  then show ?thesis
    using assms by (auto simp: combined_frame_nonempty o_def simp del: map_url_prepared)
qed

lemma filter_map_url:
  assumes "\<And>r. url (f r) = url r"
  shows "filter (\<lambda>r. url r = u) (map f xs) = map f (filter (\<lambda>r. url r = u) xs)"
  by (induction xs) (simp_all add: assms)

lemma filter_calculate_status:
  "filter (\<lambda>r. url r = u) (calculate_status h df y) =
     calculate_status h (filter (\<lambda>r. url r = u) df) y"
  unfolding calculate_status_def by (rule filter_map_url) simp

lemma filter_prepared:
  "filter (\<lambda>r. url r = u) (prepared h df) =
     map (\<lambda>r. r\<lparr>AI_CATEGORY := Some (detect_ai h (post_text (raw r)))\<rparr>)
       (map (\<lambda>r. r\<lparr>author := Some (get_author_name h r)\<rparr>)
         (calculate_metrics h
            (case find (\<lambda>r. url r = u) df of None \<Rightarrow> [] | Some r \<Rightarrow> [r])))"
  unfolding prepared_def
  by (simp add: filter_map_url filter_calculate_metrics filter_drop_duplicates)

lemma combined_frame_status_absent:
  assumes "combined_frame h env = Inr df" and "r \<in> set df"
    and "url r \<notin> cache_urls (combined_yesterday env)"
  shows "status r = Some NEW \<and> acceleration_status r = Some NEW"
proof (cases "us_data env = [] \<and> uk_data env = []")
  case True
  then show ?thesis using assms by (simp add: combined_frame_empty)
next
  case False
  then have ne: "us_data env \<noteq> [] \<or> uk_data env \<noteq> []" by simp
  from assms(1,2) obtain r0 where r0: "r0 \<in> set (calculate_status h
         (map (\<lambda>r. r\<lparr>Market := Some (if url r \<in> webVideoUrl ` set (us_data env) \<inter>
                                            webVideoUrl ` set (uk_data env)
                                      then BOTH else SINGLE)\<rparr>)
            (prepared h (DataFrame (joined (us_data env) (uk_data env)))))
         (combined_yesterday env))"
    and st: "status r = status r0" and ac: "acceleration_status r = status r0"
    and u: "url r = url r0"
    unfolding combined_frame_nonempty [OF ne] by auto
  from calculate_status_absent [OF r0] assms(3) u have "status r0 = Some NEW" by simp
  then show ?thesis using st ac by simp
qed

lemma combined_frame_row:
  assumes "find (\<lambda>p. webVideoUrl p = u) (us_data env) = Some p"
  shows "\<exists>df r. combined_frame h env = Inr df \<and> filter (\<lambda>r. url r = u) df = [r] \<and>
           raw r = cast_raw (filter (\<lambda>data. data \<noteq> []) [us_data env, uk_data env]) p \<and>
           metrics r = Some (calc_metrics h (raw r)) \<and>
           AI_CATEGORY r = Some (detect_ai h (post_text p)) \<and>
           Market r = Some (if u \<in> webVideoUrl ` set (uk_data env) then BOTH else SINGLE)"
proof -
  from assms have pu: "webVideoUrl p = u" and pin: "p \<in> set (us_data env)"
    by (auto simp: find_Some_iff)
  then have uin: "u \<in> webVideoUrl ` set (us_data env)" by auto
  have ne: "us_data env \<noteq> [] \<or> uk_data env \<noteq> []"
    using pin by auto
  let ?q = "cast_raw (filter (\<lambda>data. data \<noteq> []) [us_data env, uk_data env]) p"
  let ?df = "map (\<lambda>r. r\<lparr>acceleration_status := status r\<rparr>)
       (calculate_status h
         (map (\<lambda>r. r\<lparr>Market := Some (if url r \<in> webVideoUrl ` set (us_data env) \<inter>
                                            webVideoUrl ` set (uk_data env)
                                      then BOTH else SINGLE)\<rparr>)
            (prepared h (DataFrame (joined (us_data env) (uk_data env)))))
         (combined_yesterday env))"
  have cf: "combined_frame h env = Inr ?df"
    using ne by (rule combined_frame_nonempty)
  have fnd: "find (\<lambda>r. url r = u) (DataFrame (joined (us_data env) (uk_data env)) :: 'a frame) =
      Some \<lparr>raw = ?q, metrics = None, author = None, AI_CATEGORY = None,
                      status = None, BUILD_NOW = None, Market = None,
                      acceleration_status = None\<rparr>"
    by (simp add: find_DataFrame find_joined find_append_first assms)
  let ?row = "\<lparr>raw = ?q, metrics = Some (calc_metrics h ?q),
           author = Some (get_author_name h \<lparr>raw = ?q, metrics = Some (calc_metrics h ?q),
              author = None, AI_CATEGORY = None, status = None, BUILD_NOW = None,
              Market = None, acceleration_status = None\<rparr>),
           AI_CATEGORY = Some (detect_ai h (post_text ?q)), status = None, BUILD_NOW = None,
           Market = None, acceleration_status = None\<rparr>"
  have fp: "filter (\<lambda>r. url r = u) (prepared h (DataFrame (joined (us_data env) (uk_data env)))) =
      [?row]"
    by (simp add: filter_prepared fnd calculate_metrics_def)
  have "filter (\<lambda>r. url r = u) ?df =
      map (\<lambda>r. r\<lparr>acceleration_status := status r\<rparr>)
       (calculate_status h
         (map (\<lambda>r. r\<lparr>Market := Some (if url r \<in> webVideoUrl ` set (us_data env) \<inter>
                                            webVideoUrl ` set (uk_data env)
                                      then BOTH else SINGLE)\<rparr>)
            (filter (\<lambda>r. url r = u) (prepared h (DataFrame (joined (us_data env) (uk_data env))))))
         (combined_yesterday env))"
    by (simp add: filter_map_url filter_calculate_status)
  also have "\<dots> = map (\<lambda>r. r\<lparr>acceleration_status := status r\<rparr>)
       (calculate_status h
         (map (\<lambda>r. r\<lparr>Market := Some (if url r \<in> webVideoUrl ` set (us_data env) \<inter>
                                            webVideoUrl ` set (uk_data env)
                                      then BOTH else SINGLE)\<rparr>) [?row])
         (combined_yesterday env))"
    by (simp only: fp)
  finally have "\<exists>r. filter (\<lambda>r. url r = u) ?df = [r] \<and> raw r = ?q \<and>
      metrics r = Some (calc_metrics h (raw r)) \<and>
      AI_CATEGORY r = Some (detect_ai h (post_text p)) \<and>
      Market r = Some (if u \<in> webVideoUrl ` set (uk_data env) then BOTH else SINGLE)"
    using uin by (simp add: calculate_status_def url_def pu)
  with cf show ?thesis by blast
qed

lemma float64_of_int_above_2_53: "float64_of_int 9007199254740993 = 9007199254740992"
proof -
  have e: "float64_exponent 9007199254740993 = 1"
    by (simp add: float64_exponent.simps)
  show ?thesis
    unfolding float64_of_int_def Let_def by (simp add: e)
qed

section \<open>Evaluating the concrete run\<close>

lemmas demo_defs = demo_env_def demo_helpers_def post_a_def post_a_late_def post_a_uk_def
  post_b_def post_c_def cached_a_def

lemmas stage_defs = us_enhanced_def uk_enhanced_def enhanced_frame_def combined_frame_def
  combined_yesterday_def calculate_status_def calculate_metrics_def drop_duplicates_def
  DataFrame_def url_set_def url_column_def has_column_def pd_concat_def truthy_def url_def
  cache_urls_def Let_def

section \<open>The run as a whole\<close>

lemma run_v35_total: "\<exists>fs. run_v35_enhancements h env = Inr fs"
proof -
  obtain us_df where us: "us_enhanced h env = Inr us_df"
    using enhanced_frame_total unfolding us_enhanced_def by blast
  obtain uk_df where uk: "uk_enhanced h env = Inr uk_df"
    using enhanced_frame_total unfolding uk_enhanced_def by blast
  show ?thesis
    by (simp add: run_v35_enhancements_def us uk split: sum.splits)
qed

lemma run_v35_integrate_raises:
  assumes "v35_importable env" and "us_enhanced h env = Inr us_df"
    and "uk_enhanced h env = Inr uk_df"
    and "integrate_with_daily_processor env us_df uk_df (frame_or_none (yesterday_us env))
           (frame_or_none (yesterday_uk env)) (output_dir env) = Inl e"
  shows "run_v35_enhancements h env = Inr []"
  using assms by (simp add: run_v35_enhancements_def)

lemma run_v35_not_importable:
  "\<not> v35_importable env \<Longrightarrow> run_v35_enhancements h env = Inr []"
  by (simp add: run_v35_enhancements_def)

lemma cache_frames_eq:
  "cache_frames h env = (normalized h (us_data env), normalized h (uk_data env))"
  by (simp add: cache_frames_def normalized_def Let_def)

lemma main_no_data:
  "us_data env = [] \<Longrightarrow> uk_data env = [] \<Longrightarrow> main h env = Inl (SystemExit 1)"
  by (simp add: main_def)

lemma main_with_data:
  assumes "\<not> (us_data env = [] \<and> uk_data env = [])"
    and "process_data env (us_data env) (uk_data env) (us_music env) (uk_music env)
           (yesterday_us env) (yesterday_uk env) (output_dir env) (cache_dir env) = Inr stats0"
    and "run_v35_enhancements h env = Inr fs"
  shows "main h env =
     (case save_today_cache env (normalized h (us_data env)) (normalized h (uk_data env))
             (cache_dir env) of
        Inl e \<Rightarrow> Inl (Uncaught e)
      | Inr u \<Rightarrow>
          (case send_discord_notification env
                  (if fs \<noteq> [] then stats0(''enhanced_files'' \<mapsto> int (dict_len fs)) else stats0) of
             Inl e \<Rightarrow> Inl (Uncaught e)
           | Inr v \<Rightarrow>
               Inr \<lparr>enhanced = fs, briefing = daily_briefing_step h env,
                    cache_saved = (normalized h (us_data env), normalized h (uk_data env)),
                    notified = (if fs \<noteq> [] then stats0(''enhanced_files'' \<mapsto> int (dict_len fs))
                                else stats0)\<rparr>))"
proof -
  have ne: "(us_data env = [] \<and> uk_data env = []) = False"
    using assms(1) by simp
  show ?thesis
    unfolding main_def ne by (simp add: assms(2,3) cache_frames_eq Let_def)
qed

lemmas run_defs = main_def script_def run_v35_enhancements_def daily_briefing_step_def
  cache_frames_def frame_or_none_def dict_len_def path_join_def

lemma script_without_v35:
  "\<not> v35_importable env \<Longrightarrow> script h env = Inl (Uncaught ImportError)"
  by (simp add: script_def)

lemma integrate_failure_is_contained:
  assumes "\<not> (us_data env = [] \<and> uk_data env = [])"
    and "process_data env (us_data env) (uk_data env) (us_music env) (uk_music env)
           (yesterday_us env) (yesterday_uk env) (output_dir env) (cache_dir env) = Inr stats0"
    and "\<forall>us_df uk_df. integrate_with_daily_processor env us_df uk_df
           (frame_or_none (yesterday_us env)) (frame_or_none (yesterday_uk env))
           (output_dir env) = Inl e"
    and "save_today_cache env (normalized h (us_data env)) (normalized h (uk_data env))
           (cache_dir env) = Inr ()"
    and "send_discord_notification env stats0 = Inr ()"
  shows "main h env =
           Inr \<lparr>enhanced = [], briefing = daily_briefing_step h env,
                cache_saved = (normalized h (us_data env), normalized h (uk_data env)),
                notified = stats0\<rparr>"
proof -
  obtain us_df where us: "us_enhanced h env = Inr us_df"
    using enhanced_frame_total unfolding us_enhanced_def by blast
  obtain uk_df where uk: "uk_enhanced h env = Inr uk_df"
    using enhanced_frame_total unfolding uk_enhanced_def by blast
  have fs: "run_v35_enhancements h env = Inr []"
    using assms(3) by (simp add: run_v35_enhancements_def us uk)
  show ?thesis
    unfolding main_with_data [OF assms(1,2) fs] using assms(4,5) by simp
qed

section \<open>Streaks\<close>

lemma fold_update_other:
  "u \<notin> url ` set df \<Longrightarrow> fold (update_streak pol day) df c u = c u"
  by (induction df arbitrary: c) (auto simp: update_streak_def split: option.splits)

lemma streak_run_at:
  assumes "distinct (map url df)" and "r \<in> set df"
  shows "streak_run pol day df c (url r) = update_streak pol day r (purge pol day c) (url r)"
proof -
  from assms(2) obtain xs ys where df: "df = xs @ r # ys"
    by (auto simp: in_set_conv_decomp)
  with assms(1) have nx: "url r \<notin> url ` set xs" and ny: "url r \<notin> url ` set ys"
    by auto
  have "streak_run pol day df c (url r) =
      fold (update_streak pol day) ys
        (update_streak pol day r (fold (update_streak pol day) xs (purge pol day c))) (url r)"
    by (simp add: streak_run_def Let_def df)
  also have "\<dots> = update_streak pol day r (fold (update_streak pol day) xs (purge pol day c)) (url r)"
    using ny by (rule fold_update_other)
  also have "\<dots> = update_streak pol day r (purge pol day c) (url r)"
    using fold_update_other [OF nx, of pol day "purge pol day c"]
    by (simp add: update_streak_def split: option.splits)
  finally show ?thesis .
qed

lemma fold_update_not_accelerating:
  assumes "\<forall>r\<in>set df. url r = u \<longrightarrow> \<not> row_accelerates pol r"
  shows "fold (update_streak pol day) df c u =
           (if u \<in> url ` set df then map_option (\<lambda>e. e\<lparr>day_count := 0\<rparr>) (c u) else c u)"
  using assms
proof (induction df arbitrary: c)
  case Nil
  show ?case by simp
next
  case (Cons r rs)
  have rest: "\<forall>r\<in>set rs. url r = u \<longrightarrow> \<not> row_accelerates pol r"
    using Cons.prems by simp
  show ?case
  proof (cases "url r = u")
    case True
    with Cons.prems have "\<not> row_accelerates pol r" by simp
    with True have "update_streak pol day r c u = map_option (\<lambda>e. e\<lparr>day_count := 0\<rparr>) (c u)"
      by (auto simp: update_streak_def split: option.splits)
    with Cons.IH [OF rest, of "update_streak pol day r c"] True show ?thesis
      by (cases "c u") auto
  next
    case False
    then have "update_streak pol day r c u = c u"
      by (auto simp: update_streak_def split: option.splits)
    with Cons.IH [OF rest, of "update_streak pol day r c"] False show ?thesis
      by auto
  qed
qed

lemma streak_run_not_accelerating:
  assumes "\<forall>r\<in>set df. url r = u \<longrightarrow> \<not> row_accelerates pol r"
  shows "streak_run pol day df c u =
           map_option (\<lambda>e. e\<lparr>day_count := 0\<rparr>) (purge pol day c u)"
  using fold_update_not_accelerating [OF assms, of day "purge pol day c"]
  by (cases "purge pol day c u") (auto simp: streak_run_def Let_def)

lemma streak_run_accelerating:
  assumes "accelerates_in pol u df"
  shows "\<exists>e. streak_run pol day df c u = Some e \<and> last_seen e = day \<and>
           day_count e = (case purge pol day c u of None \<Rightarrow> 1 | Some e0 \<Rightarrow> day_count e0 + 1)"
proof -
  from assms obtain r where d: "distinct (map url df)" and r: "r \<in> set df"
    and u: "url r = u" and a: "row_accelerates pol r"
    by (auto simp: accelerates_in_def list_ex_iff)
  show ?thesis
    using streak_run_at [OF d r, of pol day c] u a by (auto simp: update_streak_def)
qed

lemma streak_runs_continue:
  assumes "c u = Some e" and "last_seen e = prev" and "within_retention (retention pol) prev (map fst runs)"
    and "list_all (\<lambda>run. accelerates_in pol u (snd run)) runs"
  shows "streak_days (streak_runs pol runs c) u = day_count e + length runs"
  using assms
proof (induction runs arbitrary: c e prev)
  case Nil
  then show ?case by (simp add: streak_days_def)
next
  case (Cons run runs)
  obtain day df where run: "run = (day, df)" by (cases run)
  from Cons.prems run have gap: "day - prev \<le> retention pol"
    and rest: "within_retention (retention pol) day (map fst runs)"
    and acc: "accelerates_in pol u df"
    and accs: "list_all (\<lambda>run. accelerates_in pol u (snd run)) runs"
    by simp_all
  have "purge pol day c u = Some e"
    using Cons.prems(1,2) gap by (simp add: purge_def)
  with streak_run_accelerating [OF acc, of day c] obtain e' where
    e': "streak_run pol day df c u = Some e'" "last_seen e' = day" "day_count e' = day_count e + 1"
    by auto
  have "streak_days (streak_runs pol runs (streak_run pol day df c)) u =
      day_count e' + length runs"
    using Cons.IH [of "streak_run pol day df c" e' day] e'(1,2) rest accs by simp
  then show ?case using e'(3) run by simp
qed

lemma combined_frame_distinct:
  assumes "combined_frame h env = Inr df"
  shows "distinct (map url df)"
  using combined_frame_urls [OF assms] by (simp add: distinct_drop_duplicates)

section \<open>Verified properties\<close>

text \<open>
  C1. Normalisation deduplicates by URL and the first occurrence wins: for every raw input
  and every URL, the normalised frame holds no row of that URL when the input has none,
  and otherwise exactly one row, built from the first input record with that URL (its raw
  values, and the metrics computed from them). Hence the URLs of the output are distinct
  and are exactly the URLs of the input.
\<close>

theorem normalized_first_occurrence_wins:
  "filter (\<lambda>r. url r = u) (normalized h data) =
     (case find (\<lambda>p. webVideoUrl p = u) data of
        None \<Rightarrow> []
      | Some p \<Rightarrow> [\<lparr>raw = p, metrics = Some (calc_metrics h p), author = None,
                    AI_CATEGORY = None, status = None, BUILD_NOW = None, Market = None,
                    acceleration_status = None\<rparr>])
   \<and> distinct (map url (normalized h data))
   \<and> set (map url (normalized h data)) = webVideoUrl ` set data"
  using filter_normalized [of u h data] distinct_normalized [of h data]
    urls_normalized [of h data]
  by simp

theorem normalized_first_occurrence_wins_witness:
  "filter (\<lambda>r. url r = ''A'') (normalized demo_helpers [post_a, post_a_late, post_b]) =
     [\<lparr>raw = post_a, metrics = Some 43, author = None, AI_CATEGORY = None, status = None,
       BUILD_NOW = None, Market = None, acceleration_status = None\<rparr>]
   \<and> views post_a \<noteq> views post_a_late
   \<and> map url (normalized demo_helpers [post_a, post_a_late, post_b]) = [''A'', ''B'']"
  using normalized_first_occurrence_wins [of "''A''" demo_helpers "[post_a, post_a_late, post_b]"]
  by (simp add: demo_helpers_def post_a_def post_a_late_def post_b_def normalized_def
      DataFrame_def drop_duplicates_def calculate_metrics_def url_def)

text \<open>
  C2. A record whose URL is absent from yesterday's cache is classified \<open>NEW\<close>,
  whatever its metrics, and also when there is no cache at all (its URL set is then
  empty). This holds for the classifier itself and at each place where \<open>main.py\<close>
  calls it: for the US frame against yesterday's US cache, for the UK frame against
  yesterday's UK cache, and for the combined frame against the combined cache.
\<close>

theorem absent_from_cache_is_new:
  "(\<forall>r\<in>set (calculate_status h df yesterday).
      url r \<notin> cache_urls yesterday \<longrightarrow> status r = Some NEW) \<and>
   (\<forall>us_df. us_enhanced h env = Inr us_df \<longrightarrow>
      (\<forall>r\<in>set us_df. url r \<notin> cache_urls (yesterday_us env) \<longrightarrow> status r = Some NEW)) \<and>
   (\<forall>uk_df. uk_enhanced h env = Inr uk_df \<longrightarrow>
      (\<forall>r\<in>set uk_df. url r \<notin> cache_urls (yesterday_uk env) \<longrightarrow> status r = Some NEW)) \<and>
   (\<forall>both_df. combined_frame h env = Inr both_df \<longrightarrow>
      (\<forall>r\<in>set both_df. url r \<notin> cache_urls (combined_yesterday env) \<longrightarrow>
         status r = Some NEW))"
proof (intro conjI allI impI ballI)
  fix r
  assume "r \<in> set (calculate_status h df yesterday)" and "url r \<notin> cache_urls yesterday"
  then show "status r = Some NEW" by (rule calculate_status_absent)
next
  fix us_df r
  assume "us_enhanced h env = Inr us_df" and "r \<in> set us_df"
    and "url r \<notin> cache_urls (yesterday_us env)"
  then show "status r = Some NEW"
    unfolding us_enhanced_def using enhanced_frame_status_absent by blast
next
  fix uk_df r
  assume "uk_enhanced h env = Inr uk_df" and "r \<in> set uk_df"
    and "url r \<notin> cache_urls (yesterday_uk env)"
  then show "status r = Some NEW"
    unfolding uk_enhanced_def using enhanced_frame_status_absent by blast
next
  fix both_df r
  assume "combined_frame h env = Inr both_df" and "r \<in> set both_df"
    and "url r \<notin> cache_urls (combined_yesterday env)"
  then show "status r = Some NEW"
    using combined_frame_status_absent by blast
qed

theorem absent_from_cache_is_new_witness:
  "''B'' \<notin> cache_urls (yesterday_us demo_env) \<and> ''A'' \<in> cache_urls (yesterday_us demo_env) \<and>
   (\<exists>us_df. us_enhanced demo_helpers demo_env = Inr us_df \<and>
      map (\<lambda>r. (url r, status r)) us_df = [(''A'', Some URGENT), (''B'', Some NEW)])"
  using absent_from_cache_is_new [of demo_helpers "[]" None demo_env]
  by (simp add: demo_defs stage_defs)

text \<open>
  C3. Cross-market tagging is symmetric. Both frames of the enhancement stage are always
  produced (no exception); for every URL that occurs in both, each record with that URL
  is tagged \<open>BOTH\<close> in the US frame and in the UK frame; and a record tagged \<open>BOTH\<close>
  in one frame has a counterpart with the same URL in the other frame, tagged \<open>BOTH\<close>
  as well.
\<close>

theorem cross_market_tagging_symmetric:
  "\<exists>us_df uk_df.
     us_enhanced h env = Inr us_df \<and> uk_enhanced h env = Inr uk_df \<and>
     (\<forall>u. u \<in> url ` set us_df \<and> u \<in> url ` set uk_df \<longrightarrow>
        (\<forall>r\<in>set us_df. url r = u \<longrightarrow> Market r = Some BOTH) \<and>
        (\<forall>r\<in>set uk_df. url r = u \<longrightarrow> Market r = Some BOTH)) \<and>
     (\<forall>r\<in>set us_df. Market r = Some BOTH \<longrightarrow>
        (\<exists>r'\<in>set uk_df. url r' = url r \<and> Market r' = Some BOTH)) \<and>
     (\<forall>r\<in>set uk_df. Market r = Some BOTH \<longrightarrow>
        (\<exists>r'\<in>set us_df. url r' = url r \<and> Market r' = Some BOTH))"
proof -
  obtain us_df where us: "us_enhanced h env = Inr us_df"
    using enhanced_frame_total unfolding us_enhanced_def by blast
  obtain uk_df where uk: "uk_enhanced h env = Inr uk_df"
    using enhanced_frame_total unfolding uk_enhanced_def by blast
  have us_urls: "url ` set us_df = webVideoUrl ` set (us_data env)"
    using enhanced_frame_urls [OF us [unfolded us_enhanced_def]] urls_normalized [of h "us_data env"]
    by (metis set_map)
  have uk_urls: "url ` set uk_df = webVideoUrl ` set (uk_data env)"
    using enhanced_frame_urls [OF uk [unfolded uk_enhanced_def]] urls_normalized [of h "uk_data env"]
    by (metis set_map)
  have us_tag: "Market r = Some (if url r \<in> url ` set uk_df then BOTH else US_ONLY)"
    if "r \<in> set us_df" for r
    using enhanced_frame_Market [OF us [unfolded us_enhanced_def] that] uk_urls by simp
  have uk_tag: "Market r = Some (if url r \<in> url ` set us_df then BOTH else UK_ONLY)"
    if "r \<in> set uk_df" for r
    using enhanced_frame_Market [OF uk [unfolded uk_enhanced_def] that] us_urls by simp
  have both: "(\<forall>r\<in>set us_df. url r = u \<longrightarrow> Market r = Some BOTH) \<and>
        (\<forall>r\<in>set uk_df. url r = u \<longrightarrow> Market r = Some BOTH)"
    if "u \<in> url ` set us_df \<and> u \<in> url ` set uk_df" for u
    using that us_tag uk_tag by simp
  have us_conv: "\<exists>r'\<in>set uk_df. url r' = url r \<and> Market r' = Some BOTH"
    if "r \<in> set us_df" and "Market r = Some BOTH" for r
  proof -
    have "url r \<in> url ` set uk_df"
      using us_tag [OF that(1)] that(2) by (simp split: if_splits)
    then obtain r' where "r' \<in> set uk_df" and "url r' = url r" by auto
    moreover have "url r' \<in> url ` set us_df"
      using that(1) \<open>url r' = url r\<close> by auto
    ultimately show ?thesis using uk_tag [of r'] by auto
  qed
  have uk_conv: "\<exists>r'\<in>set us_df. url r' = url r \<and> Market r' = Some BOTH"
    if "r \<in> set uk_df" and "Market r = Some BOTH" for r
  proof -
    have "url r \<in> url ` set us_df"
      using uk_tag [OF that(1)] that(2) by (simp split: if_splits)
    then obtain r' where "r' \<in> set us_df" and "url r' = url r" by auto
    moreover have "url r' \<in> url ` set uk_df"
      using that(1) \<open>url r' = url r\<close> by auto
    ultimately show ?thesis using us_tag [of r'] by auto
  qed
  show ?thesis
    using us uk both us_conv uk_conv by blast
qed

theorem cross_market_tagging_symmetric_witness:
  "\<exists>us_df uk_df. us_enhanced demo_helpers demo_env = Inr us_df \<and>
      uk_enhanced demo_helpers demo_env = Inr uk_df \<and>
      map (\<lambda>r. (url r, Market r)) us_df = [(''A'', Some BOTH), (''B'', Some US_ONLY)] \<and>
      map (\<lambda>r. (url r, Market r)) uk_df = [(''A'', Some BOTH), (''C'', Some UK_ONLY)]"
  using cross_market_tagging_symmetric [of demo_helpers demo_env]
  by (simp add: demo_defs stage_defs)

text \<open>
  C4. The run exits with status 1 exactly when the fetched data of both markets is
  empty. With data present the enhancement stage never raises into \<open>main\<close>, and the
  outcome is decided by the three calls that stand outside any \<open>try\<close>: an exception
  raised by standard processing, by the cache write or by the notifier ends the run with
  that exception; when the three return, the run completes, and its outputs are the
  enhanced files of the enhancement stage, the briefing of the briefing stage, the
  normalised frames of both markets given to the cache write, and the statistics given
  to the notifier. This holds whether one market is empty, whether or not there is a
  cache, and whatever the enhanced analytics and the briefing generator return or raise.
\<close>

theorem run_exits_iff_no_data_else_completes:
  "(main h env = Inl (SystemExit 1) \<longleftrightarrow> us_data env = [] \<and> uk_data env = []) \<and>
   (\<not> (us_data env = [] \<and> uk_data env = []) \<longrightarrow>
      (\<exists>fs. run_v35_enhancements h env = Inr fs \<and>
         (\<forall>e. process_data env (us_data env) (uk_data env) (us_music env) (uk_music env)
                 (yesterday_us env) (yesterday_uk env) (output_dir env) (cache_dir env) = Inl e \<longrightarrow>
              main h env = Inl (Uncaught e)) \<and>
         (\<forall>stats0. process_data env (us_data env) (uk_data env) (us_music env) (uk_music env)
                 (yesterday_us env) (yesterday_uk env) (output_dir env) (cache_dir env) =
                 Inr stats0 \<longrightarrow>
            (\<forall>e. save_today_cache env (normalized h (us_data env))
                    (normalized h (uk_data env)) (cache_dir env) = Inl e \<longrightarrow>
                 main h env = Inl (Uncaught e)) \<and>
            (save_today_cache env (normalized h (us_data env))
                    (normalized h (uk_data env)) (cache_dir env) = Inr () \<longrightarrow>
               (\<forall>e. send_discord_notification env
                       (if fs \<noteq> [] then stats0(''enhanced_files'' \<mapsto> int (dict_len fs))
                        else stats0) = Inl e \<longrightarrow>
                    main h env = Inl (Uncaught e)) \<and>
               (send_discord_notification env
                       (if fs \<noteq> [] then stats0(''enhanced_files'' \<mapsto> int (dict_len fs))
                        else stats0) = Inr () \<longrightarrow>
                  main h env =
                    Inr \<lparr>enhanced = fs, briefing = daily_briefing_step h env,
                         cache_saved = (normalized h (us_data env), normalized h (uk_data env)),
                         notified = (if fs \<noteq> []
                                     then stats0(''enhanced_files'' \<mapsto> int (dict_len fs))
                                     else stats0)\<rparr>)))))"
proof (cases "us_data env = [] \<and> uk_data env = []")
  case True
  then show ?thesis by (simp add: main_no_data)
next
  case False
  obtain fs where fs: "run_v35_enhancements h env = Inr fs"
    using run_v35_total by blast
  have no_exit: "main h env \<noteq> Inl (SystemExit 1)"
  proof (cases "process_data env (us_data env) (uk_data env) (us_music env) (uk_music env)
                 (yesterday_us env) (yesterday_uk env) (output_dir env) (cache_dir env)")
    case (Inl e)
    then show ?thesis using False by (auto simp: main_def)
  next
    case (Inr stats0)
    show ?thesis
      unfolding main_with_data [OF False Inr fs] by (simp split: sum.splits)
  qed
  have raised: "main h env = Inl (Uncaught e)"
    if "process_data env (us_data env) (uk_data env) (us_music env) (uk_music env)
          (yesterday_us env) (yesterday_uk env) (output_dir env) (cache_dir env) = Inl e" for e
    using that False by (auto simp: main_def)
  have returned:
    "(\<forall>e. save_today_cache env (normalized h (us_data env))
                    (normalized h (uk_data env)) (cache_dir env) = Inl e \<longrightarrow>
                 main h env = Inl (Uncaught e)) \<and>
            (save_today_cache env (normalized h (us_data env))
                    (normalized h (uk_data env)) (cache_dir env) = Inr () \<longrightarrow>
               (\<forall>e. send_discord_notification env
                       (if fs \<noteq> [] then stats0(''enhanced_files'' \<mapsto> int (dict_len fs))
                        else stats0) = Inl e \<longrightarrow>
                    main h env = Inl (Uncaught e)) \<and>
               (send_discord_notification env
                       (if fs \<noteq> [] then stats0(''enhanced_files'' \<mapsto> int (dict_len fs))
                        else stats0) = Inr () \<longrightarrow>
                  main h env =
                    Inr \<lparr>enhanced = fs, briefing = daily_briefing_step h env,
                         cache_saved = (normalized h (us_data env), normalized h (uk_data env)),
                         notified = (if fs \<noteq> []
                                     then stats0(''enhanced_files'' \<mapsto> int (dict_len fs))
                                     else stats0)\<rparr>))"
    if "process_data env (us_data env) (uk_data env) (us_music env) (uk_music env)
          (yesterday_us env) (yesterday_uk env) (output_dir env) (cache_dir env) = Inr stats0"
    for stats0
    unfolding main_with_data [OF False that fs] by simp
  from fs no_exit raised returned False show ?thesis by blast
qed

theorem run_exits_iff_no_data_else_completes_witness:
  "us_data degraded_env \<noteq> [] \<and> uk_data degraded_env = [] \<and>
   yesterday_us degraded_env = None \<and> yesterday_uk degraded_env = None \<and>
   run_v35_enhancements demo_helpers degraded_env = Inr [] \<and>
   main demo_helpers degraded_env =
     Inr \<lparr>enhanced = [], briefing = None,
          cache_saved = (normalized demo_helpers [post_a, post_a_late, post_b], []),
          notified = [''your_posts'' \<mapsto> 1, ''competitor'' \<mapsto> 2, ''urgent'' \<mapsto> 1]\<rparr> \<and>
   map url (normalized demo_helpers [post_a, post_a_late, post_b]) = [''A'', ''B''] \<and>
   main demo_helpers (demo_env\<lparr>us_data := [], uk_data := []\<rparr>) = Inl (SystemExit 1)"
proof -
  have data: "us_data degraded_env \<noteq> [] \<and> uk_data degraded_env = [] \<and>
      yesterday_us degraded_env = None \<and> yesterday_uk degraded_env = None"
    by (simp add: degraded_env_def demo_env_def)
  have fs: "run_v35_enhancements demo_helpers degraded_env = Inr []"
    by (simp add: degraded_env_def demo_defs stage_defs run_defs)
  have processed: "process_data degraded_env (us_data degraded_env) (uk_data degraded_env)
      (us_music degraded_env) (uk_music degraded_env) (yesterday_us degraded_env)
      (yesterday_uk degraded_env) (output_dir degraded_env) (cache_dir degraded_env) =
      Inr [''your_posts'' \<mapsto> 1, ''competitor'' \<mapsto> 2, ''urgent'' \<mapsto> 1]"
    by (simp add: degraded_env_def demo_env_def)
  have saved: "save_today_cache degraded_env (normalized demo_helpers (us_data degraded_env))
      (normalized demo_helpers (uk_data degraded_env)) (cache_dir degraded_env) = Inr ()"
    by (simp add: degraded_env_def demo_env_def)
  have sent: "send_discord_notification degraded_env st = Inr ()" for st
    by (simp add: degraded_env_def demo_env_def)
  have briefed: "daily_briefing_step demo_helpers degraded_env = None"
    by (simp add: degraded_env_def demo_defs stage_defs run_defs cast_raw_def)
  have "main demo_helpers degraded_env =
     Inr \<lparr>enhanced = [], briefing = daily_briefing_step demo_helpers degraded_env,
          cache_saved = (normalized demo_helpers (us_data degraded_env),
                         normalized demo_helpers (uk_data degraded_env)),
          notified = [''your_posts'' \<mapsto> 1, ''competitor'' \<mapsto> 2, ''urgent'' \<mapsto> 1]\<rparr>"
    using run_exits_iff_no_data_else_completes [of demo_helpers degraded_env]
      data fs processed saved sent
    by auto
  moreover have "us_data degraded_env = [post_a, post_a_late, post_b]"
    by (simp add: degraded_env_def demo_env_def)
  moreover have "map url (normalized demo_helpers [post_a, post_a_late, post_b]) = [''A'', ''B'']"
    by (simp add: demo_defs stage_defs normalized_def)
  moreover have "main demo_helpers (demo_env\<lparr>us_data := [], uk_data := []\<rparr>) = Inl (SystemExit 1)"
    using run_exits_iff_no_data_else_completes [of demo_helpers "demo_env\<lparr>us_data := [], uk_data := []\<rparr>"]
    by simp
  ultimately show ?thesis using data fs briefed by simp
qed

theorem run_fatal_with_data_present:
  "us_data notifier_down_env \<noteq> [] \<and> uk_data notifier_down_env \<noteq> [] \<and>
   main demo_helpers notifier_down_env = Inl (Uncaught (OtherException ''webhook'')) \<and>
   isl (main demo_helpers notifier_down_env)"
proof -
  have "main demo_helpers notifier_down_env = Inl (Uncaught (OtherException ''webhook''))"
    by (simp add: notifier_down_env_def demo_defs stage_defs run_defs)
  then show ?thesis
    by (simp add: notifier_down_env_def demo_env_def)
qed

text \<open>
  C5. The behaviour of the script when the module \<open>v35_enhancements\<close> cannot be
  imported, on the concrete run with US and UK data: the import at module level raises
  \<open>ImportError\<close> before \<open>main\<close> starts, so nothing is saved and nothing is
  notified, although \<open>run_v35_enhancements\<close> on its own would have returned the empty
  dictionary.
\<close>

theorem script_aborts_without_v35:
  "script demo_helpers (demo_env\<lparr>v35_importable := False\<rparr>) = Inl (Uncaught ImportError) \<and>
   run_v35_enhancements demo_helpers (demo_env\<lparr>v35_importable := False\<rparr>) = Inr [] \<and>
   us_data (demo_env\<lparr>v35_importable := False\<rparr>) \<noteq> []"
  by (simp add: script_def run_v35_enhancements_def demo_env_def)

theorem script_aborts_without_v35_witness:
  "isl (script demo_helpers (demo_env\<lparr>v35_importable := False\<rparr>))"
  using script_aborts_without_v35 by simp

text \<open>
  C6. When one market's data is absent, the cross-market detection of the enhancement
  stage raises nothing, the absent market's frame is empty, and every record of the other
  market (one per URL of its normalised data) is tagged as single-market: \<open>US_ONLY\<close>
  when the UK data is absent, \<open>UK_ONLY\<close> when the US data is absent. No record is
  tagged \<open>BOTH\<close>.
\<close>

theorem absent_market_never_both:
  "(uk_data env = [] \<longrightarrow>
      (\<exists>us_df. us_enhanced h env = Inr us_df \<and> uk_enhanced h env = Inr [] \<and>
         map url us_df = map url (normalized h (us_data env)) \<and>
         (\<forall>r\<in>set us_df. Market r = Some US_ONLY))) \<and>
   (us_data env = [] \<longrightarrow>
      (\<exists>uk_df. uk_enhanced h env = Inr uk_df \<and> us_enhanced h env = Inr [] \<and>
         map url uk_df = map url (normalized h (uk_data env)) \<and>
         (\<forall>r\<in>set uk_df. Market r = Some UK_ONLY)))"
proof (intro conjI impI)
  assume e: "uk_data env = []"
  obtain us_df where us: "us_enhanced h env = Inr us_df"
    using enhanced_frame_total unfolding us_enhanced_def by blast
  have "\<forall>r\<in>set us_df. Market r = Some US_ONLY"
    using enhanced_frame_Market [OF us [unfolded us_enhanced_def]] e by simp
  moreover have "map url us_df = map url (normalized h (us_data env))"
    using enhanced_frame_urls [OF us [unfolded us_enhanced_def]] .
  moreover have "uk_enhanced h env = Inr []"
    using e by (simp add: uk_enhanced_def)
  ultimately show "\<exists>us_df. us_enhanced h env = Inr us_df \<and> uk_enhanced h env = Inr [] \<and>
         map url us_df = map url (normalized h (us_data env)) \<and>
         (\<forall>r\<in>set us_df. Market r = Some US_ONLY)"
    using us by blast
next
  assume e: "us_data env = []"
  obtain uk_df where uk: "uk_enhanced h env = Inr uk_df"
    using enhanced_frame_total unfolding uk_enhanced_def by blast
  have "\<forall>r\<in>set uk_df. Market r = Some UK_ONLY"
    using enhanced_frame_Market [OF uk [unfolded uk_enhanced_def]] e by simp
  moreover have "map url uk_df = map url (normalized h (uk_data env))"
    using enhanced_frame_urls [OF uk [unfolded uk_enhanced_def]] .
  moreover have "us_enhanced h env = Inr []"
    using e by (simp add: us_enhanced_def)
  ultimately show "\<exists>uk_df. uk_enhanced h env = Inr uk_df \<and> us_enhanced h env = Inr [] \<and>
         map url uk_df = map url (normalized h (uk_data env)) \<and>
         (\<forall>r\<in>set uk_df. Market r = Some UK_ONLY)"
    using uk by blast
qed

theorem absent_market_never_both_witness:
  "uk_data (demo_env\<lparr>uk_data := []\<rparr>) = [] \<and>
   (\<exists>us_df. us_enhanced demo_helpers (demo_env\<lparr>uk_data := []\<rparr>) = Inr us_df \<and>
      uk_enhanced demo_helpers (demo_env\<lparr>uk_data := []\<rparr>) = Inr [] \<and>
      map (\<lambda>r. (url r, Market r)) us_df = [(''A'', Some US_ONLY), (''B'', Some US_ONLY)])"
  using absent_market_never_both [of "demo_env\<lparr>uk_data := []\<rparr>" demo_helpers]
  by (simp add: demo_defs stage_defs)




text \<open>
  C8. In a completed run the statistics given to the notifier are those returned by
  standard processing, except that the key \<open>enhanced_files\<close> is set to the number of
  enhanced files when the enhancement stage returned a non-empty dictionary. When it
  returned an empty one the two mappings are equal; in both cases every other key is
  unchanged.
\<close>

theorem stats_gain_only_enhanced_files:
  assumes "main h env = Inr res"
  shows "\<exists>stats0.
           process_data env (us_data env) (uk_data env) (us_music env) (uk_music env)
             (yesterday_us env) (yesterday_uk env) (output_dir env) (cache_dir env) = Inr stats0 \<and>
           run_v35_enhancements h env = Inr (enhanced res) \<and>
           send_discord_notification env (notified res) = Inr () \<and>
           (enhanced res \<noteq> [] \<longrightarrow>
              notified res = stats0(''enhanced_files'' \<mapsto> int (dict_len (enhanced res)))) \<and>
           (enhanced res = [] \<longrightarrow> notified res = stats0) \<and>
           (\<forall>k. k \<noteq> ''enhanced_files'' \<longrightarrow> notified res k = stats0 k)"
proof -
  have ne: "\<not> (us_data env = [] \<and> uk_data env = [])"
    using assms by (auto simp: main_no_data)
  obtain fs where fs: "run_v35_enhancements h env = Inr fs"
    using run_v35_total by blast
  from assms ne obtain stats0 where pd:
    "process_data env (us_data env) (uk_data env) (us_music env) (uk_music env)
       (yesterday_us env) (yesterday_uk env) (output_dir env) (cache_dir env) = Inr stats0"
    by (auto simp: main_def split: sum.splits)
  from assms have
    "enhanced res = fs \<and>
     notified res = (if fs \<noteq> [] then stats0(''enhanced_files'' \<mapsto> int (dict_len fs)) else stats0) \<and>
     send_discord_notification env (notified res) = Inr ()"
    unfolding main_with_data [OF ne pd fs] by (auto split: sum.splits)
  then show ?thesis using pd fs by auto
qed

theorem stats_gain_only_enhanced_files_witness:
  "\<exists>res. main demo_helpers demo_env = Inr res \<and> length (enhanced res) = 2 \<and>
     notified res ''enhanced_files'' = Some 2 \<and> notified res ''urgent'' = Some 1 \<and>
     notified res ''competitor'' = Some 2 \<and> notified res ''high'' = None"
proof -
  have m: "main demo_helpers demo_env =
      Inr \<lparr>enhanced = [(''velocity'', ''output/ENHANCED_VELOCITY.xlsx''),
                        (''competitors'', ''output/ENHANCED_COMPETITORS.xlsx'')],
           briefing = Some ''briefing'',
           cache_saved = cache_frames demo_helpers demo_env,
           notified = [''your_posts'' \<mapsto> 1, ''competitor'' \<mapsto> 2, ''urgent'' \<mapsto> 1,
                       ''enhanced_files'' \<mapsto> 2]\<rparr>"
    by (simp add: demo_defs stage_defs run_defs)
  from stats_gain_only_enhanced_files [OF m] show ?thesis
    unfolding m by simp
qed

text \<open>
  C9. In the daily-briefing stage, for every URL that occurs in the raw data of both
  markets, the combined frame is produced and holds exactly one row with that URL. The
  row is the first US record with that URL as \<open>pd.concat\<close> leaves it: URL, text and
  author are the US record's, each counter is the US record's counter in the common
  dtype of its column, the metrics and the AI category are computed from that row, and
  the row is tagged \<open>BOTH\<close>. When no counter column is \<open>int64\<close> in one market and
  \<open>uint64\<close> in the other, in particular when all counters of both markets lie within
  the \<open>int64\<close> range, the raw values of the row are exactly those of the US record.
\<close>

theorem combined_row_is_first_us_record:
  assumes "u \<in> webVideoUrl ` set (us_data env)" and "u \<in> webVideoUrl ` set (uk_data env)"
  shows "\<exists>df r p. combined_frame h env = Inr df \<and> filter (\<lambda>r. url r = u) df = [r] \<and>
           find (\<lambda>p. webVideoUrl p = u) (us_data env) = Some p \<and>
           raw r = cast_raw [us_data env, uk_data env] p \<and>
           webVideoUrl (raw r) = webVideoUrl p \<and> post_text (raw r) = post_text p \<and>
           author_id (raw r) = author_id p \<and>
           metrics r = Some (calc_metrics h (raw r)) \<and>
           AI_CATEGORY r = Some (detect_ai h (post_text p)) \<and> Market r = Some BOTH \<and>
           (exact_concat (us_data env) (uk_data env) \<longrightarrow> raw r = p) \<and>
           (int64_counters (us_data env) \<and> int64_counters (uk_data env) \<longrightarrow> raw r = p)"
proof -
  from assms(1) obtain p where p: "find (\<lambda>p. webVideoUrl p = u) (us_data env) = Some p"
    by (cases "find (\<lambda>p. webVideoUrl p = u) (us_data env)") (auto simp: find_None_iff)
  have both: "filter (\<lambda>data. data \<noteq> []) [us_data env, uk_data env] = [us_data env, uk_data env]"
    using assms by auto
  from combined_frame_row [OF p, of h] obtain df r where
    df: "combined_frame h env = Inr df" and one: "filter (\<lambda>r. url r = u) df = [r]"
    and rw: "raw r = cast_raw [us_data env, uk_data env] p"
    and rest: "metrics r = Some (calc_metrics h (raw r))"
      "AI_CATEGORY r = Some (detect_ai h (post_text p))" "Market r = Some BOTH"
    unfolding both using assms(2) by auto
  have exact: "raw r = p" if "exact_concat (us_data env) (uk_data env)"
    using rw cast_raw_exact [OF that] by simp
  have "raw r = p" if "int64_counters (us_data env) \<and> int64_counters (uk_data env)"
    using that exact int64_counters_exact by blast
  with df one p rw rest exact show ?thesis
    by (intro exI [of _ df] exI [of _ r] exI [of _ p]) simp
qed

theorem combined_row_is_first_us_record_witness:
  "''A'' \<in> webVideoUrl ` set (us_data demo_env) \<and>
   ''A'' \<in> webVideoUrl ` set (uk_data demo_env) \<and>
   int64_counters (us_data demo_env) \<and> int64_counters (uk_data demo_env) \<and>
   (\<exists>df r. combined_frame demo_helpers demo_env = Inr df \<and>
      filter (\<lambda>r. url r = ''A'') df = [r] \<and> raw r = post_a \<and> views (raw r) = 5000 \<and>
      views post_a_uk = 300 \<and> Market r = Some BOTH)"
proof -
  have us: "''A'' \<in> webVideoUrl ` set (us_data demo_env)"
    and uk: "''A'' \<in> webVideoUrl ` set (uk_data demo_env)"
    by (simp_all add: demo_defs)
  have small: "int64_counters (us_data demo_env) \<and> int64_counters (uk_data demo_env)"
    by (simp add: demo_defs int64_counters_def)
  have first: "find (\<lambda>p. webVideoUrl p = ''A'') (us_data demo_env) = Some post_a"
    by (simp add: demo_defs)
  from combined_row_is_first_us_record [OF us uk, of demo_helpers] small first
  have "\<exists>df r. combined_frame demo_helpers demo_env = Inr df \<and>
      filter (\<lambda>r. url r = ''A'') df = [r] \<and> raw r = post_a \<and> Market r = Some BOTH"
    by auto
  then show ?thesis
    using us uk small by (auto simp: post_a_def post_a_uk_def)
qed

theorem combined_row_rounds_us_counter:
  "''A'' \<in> webVideoUrl ` set (us_data big_env) \<and>
   ''A'' \<in> webVideoUrl ` set (uk_data big_env) \<and>
   find (\<lambda>p. webVideoUrl p = ''A'') (us_data big_env) = Some post_big_us \<and>
   views post_big_us = 9007199254740993 \<and>
   (\<exists>df r. combined_frame demo_helpers big_env = Inr df \<and>
      filter (\<lambda>r. url r = ''A'') df = [r] \<and> views (raw r) = 9007199254740992 \<and>
      raw r \<noteq> post_big_us)"
proof -
  have first: "find (\<lambda>p. webVideoUrl p = ''A'') (us_data big_env) = Some post_big_us"
    by (simp add: big_env_def demo_env_def post_big_us_def)
  have dts: "column_dtypes views [us_data big_env, uk_data big_env] = [Int64, UInt64]"
    by (simp add: column_dtypes_def int_dtype_def big_env_def demo_env_def
        post_big_us_def post_big_uk_def)
  have cast: "views (cast_raw [us_data big_env, uk_data big_env] post_big_us) =
      9007199254740992"
    unfolding cast_raw_def dts
    by (simp add: common_cast_def mixes_int64_uint64_def post_big_us_def
        float64_of_int_above_2_53)
  from combined_frame_row [OF first, of demo_helpers] obtain df r where
    "combined_frame demo_helpers big_env = Inr df" "filter (\<lambda>r. url r = ''A'') df = [r]"
    "raw r = cast_raw (filter (\<lambda>data. data \<noteq> []) [us_data big_env, uk_data big_env])
       post_big_us"
    by blast
  moreover have "filter (\<lambda>data. data \<noteq> []) [us_data big_env, uk_data big_env] =
      [us_data big_env, uk_data big_env]"
    by (simp add: big_env_def demo_env_def)
  ultimately have "\<exists>df r. combined_frame demo_helpers big_env = Inr df \<and>
      filter (\<lambda>r. url r = ''A'') df = [r] \<and> views (raw r) = 9007199254740992"
    using cast by auto
  moreover have "views post_big_us = 9007199254740993"
    by (simp add: post_big_us_def)
  moreover have "''A'' \<in> webVideoUrl ` set (us_data big_env) \<and>
      ''A'' \<in> webVideoUrl ` set (uk_data big_env)"
    by (simp add: big_env_def demo_env_def post_big_us_def post_big_uk_def)
  ultimately show ?thesis using first by auto
qed

text \<open>
  C10. The two frames handed to \<open>save_today_cache\<close> are the normalised data of the two
  markets: their URLs are distinct and every row carries its metrics. A completed run
  has saved exactly these frames. Once standard processing has returned on non-empty
  data, the cache write is reached whatever the enhancement and briefing stages did: if
  the write raises, the run ends with that exception, and if the write and the
  notification return, the run completes.
\<close>

theorem cache_snapshot_one_row_per_url:
  "cache_frames h env = (normalized h (us_data env), normalized h (uk_data env)) \<and>
   distinct (map url (fst (cache_frames h env))) \<and>
   distinct (map url (snd (cache_frames h env))) \<and>
   (\<forall>r\<in>set (fst (cache_frames h env)) \<union> set (snd (cache_frames h env)).
      metrics r = Some (calc_metrics h (raw r))) \<and>
   (\<forall>res. main h env = Inr res \<longrightarrow> cache_saved res = cache_frames h env) \<and>
   (\<not> (us_data env = [] \<and> uk_data env = []) \<and>
    (\<exists>stats0. process_data env (us_data env) (uk_data env) (us_music env) (uk_music env)
       (yesterday_us env) (yesterday_uk env) (output_dir env) (cache_dir env) = Inr stats0) \<longrightarrow>
      (\<forall>e. save_today_cache env (fst (cache_frames h env)) (snd (cache_frames h env))
              (cache_dir env) = Inl e \<longrightarrow> main h env = Inl (Uncaught e)) \<and>
      (save_today_cache env (fst (cache_frames h env)) (snd (cache_frames h env))
              (cache_dir env) = Inr () \<and>
       (\<forall>st. send_discord_notification env st = Inr ()) \<longrightarrow>
         (\<exists>res. main h env = Inr res \<and> cache_saved res = cache_frames h env)))"
proof -
  obtain fs where fs: "run_v35_enhancements h env = Inr fs"
    using run_v35_total by blast
  have met: "metrics r = Some (calc_metrics h (raw r))" if "r \<in> set (normalized h data)"
    for r data
    using that by (cases "data = []") (auto simp: normalized_nonempty calculate_metrics_def)
  have saved: "cache_saved res = cache_frames h env" if "main h env = Inr res" for res
  proof -
    have ne: "\<not> (us_data env = [] \<and> uk_data env = [])"
      using that by (auto simp: main_no_data)
    from that ne obtain stats0 where pd:
      "process_data env (us_data env) (uk_data env) (us_music env) (uk_music env)
         (yesterday_us env) (yesterday_uk env) (output_dir env) (cache_dir env) = Inr stats0"
      by (auto simp: main_def split: sum.splits)
    from that show ?thesis
      unfolding main_with_data [OF ne pd fs] cache_frames_eq by (auto split: sum.splits)
  qed
  have reach: "(\<forall>e. save_today_cache env (fst (cache_frames h env)) (snd (cache_frames h env))
              (cache_dir env) = Inl e \<longrightarrow> main h env = Inl (Uncaught e)) \<and>
      (save_today_cache env (fst (cache_frames h env)) (snd (cache_frames h env))
              (cache_dir env) = Inr () \<and>
       (\<forall>st. send_discord_notification env st = Inr ()) \<longrightarrow>
         (\<exists>res. main h env = Inr res \<and> cache_saved res = cache_frames h env))"
    if ne: "\<not> (us_data env = [] \<and> uk_data env = [])"
      and pd: "process_data env (us_data env) (uk_data env) (us_music env) (uk_music env)
       (yesterday_us env) (yesterday_uk env) (output_dir env) (cache_dir env) = Inr stats0"
    for stats0
    unfolding main_with_data [OF ne pd fs] cache_frames_eq by simp
  show ?thesis
    using saved reach met [of _ "us_data env"] met [of _ "uk_data env"]
    by (auto simp: cache_frames_eq distinct_normalized)
qed

theorem cache_snapshot_one_row_per_url_witness:
  "map url (fst (cache_frames demo_helpers demo_env)) = [''A'', ''B''] \<and>
   map url (snd (cache_frames demo_helpers demo_env)) = [''A'', ''C''] \<and>
   (\<exists>res. main demo_helpers degraded_env = Inr res \<and> enhanced res = [] \<and>
      briefing res = None \<and> map url (fst (cache_saved res)) = [''A'', ''B''] \<and>
      snd (cache_saved res) = [])"
  using cache_snapshot_one_row_per_url [of demo_helpers degraded_env]
    cache_snapshot_one_row_per_url [of demo_helpers demo_env]
  by (simp add: degraded_env_def demo_defs stage_defs run_defs normalized_def)

end
